theory Spec2Isabelle
  imports Main
begin

section \<open>Descriptors and kernel messages\<close>

text \<open>
  The kernel prints a list of dataframe descriptors; \<open>html_table\<close> reads the fields
  \<open>dfId\<close>, \<open>dfName\<close>, \<open>dfShape\<close>, \<open>dfColnames\<close>, \<open>dfCols\<close> of each entry and the
  fields \<open>colId\<close>, \<open>colname\<close>, \<open>description.dtype\<close>, \<open>description.null_percentage\<close>,
  \<open>description.distinct\<close> of each column. Every field is spliced into markup, so it is kept
  as the string it is printed as.
\<close>

record column =
  colId :: string
  colname :: string
  dtype :: string
  null_percentage :: string
  distinct_count :: string

record dataframe =
  dfId :: string
  dfName :: string
  dfShape :: string
  dfColnames :: string
  dfCols :: "column list"

text \<open>
  What \<open>JSON.parse\<close> can make of a reply text, as far as \<open>html_table\<close> looks at it. An
  entry of the array is \<open>null\<close> (\<open>Null_frame\<close>), or has a \<open>dfCols\<close> that is \<open>null\<close> or missing
  (\<open>No_dfCols\<close>: a number, a string, an object without that key), or is read to the end:
  \<open>Frame\<close> with the strings spliced for \<open>dfId\<close>, \<open>dfName\<close>, \<open>dfShape\<close>, \<open>dfColnames\<close> and
  the columns the inner loop visits. A column is \<open>null\<close> (\<open>Null_column\<close>), or has a
  \<open>description\<close> that is \<open>null\<close> or missing (\<open>No_description\<close>), or is read to the end.
\<close>

datatype col_entry = Null_column | No_description | Column column

datatype frame_entry = Null_frame | No_dfCols | Frame string string string string "col_entry list"

text \<open>
  \<open>msg.content.text\<close> of a reply, as \<open>code_exec_callback\<close> and \<open>html_table\<close> see it:
  absent (\<open>undefined\<close>); a text on which \<open>JSON.parse\<close> raises \<open>SyntaxError\<close> (the empty
  text is one); the text \<open>null\<close>; a text that \<open>JSON.parse\<close> turns into an array
  (\<open>Entries\<close>); and, as what the kernel prints, a text that it turns into an array of
  descriptors (\<open>Descriptors\<close>, the case of \<open>Entries\<close> in which every entry and every column
  is read to the end). A text that parses to a number, a string, a boolean or an object
  is not represented.
\<close>

datatype stream_text =
    Undefined
  | Unparseable
  | Json_null
  | Entries "frame_entry list"
  | Descriptors "dataframe list"

record msg =
  msg_type :: string
  content_text :: stream_text
  evalue :: string
  traceback :: string
  payload :: string

datatype error = SyntaxError | TypeError

section \<open>The summary table as a document\<close>

text \<open>
  A placeholder cell holds the text \<open>Loading widget...\<close> or the \<open>div\<close> that
  \<open>display_column_widget\<close> / \<open>display_pipeline_widget\<close> put there. The \<open>div\<close> carries its
  \<open>id\<close> attribute, the outputs injected so far (each \<open>display_data\<close> reply builds one
  output area, an element of class \<open>output\<close>, inside it) and a handle that stands for the
  JavaScript object the reply handler closes over.
\<close>

datatype cell = Loading | Holder nat string "string list"

type_synonym classes = "string list"

record col_row =
  c_frame :: string
  c_id :: string
  c_anchor :: classes
  c_name :: string
  c_dtype :: string
  c_nulls :: string
  c_distinct :: string
  c_cell_id :: string
  c_cell_class :: classes
  c_cell :: cell

record df_row =
  d_frame :: string
  d_anchor :: classes
  d_name :: string
  d_shape :: string
  d_colnames :: string
  d_pipe_id :: string
  d_pipe_class :: classes
  d_pipe :: cell
  d_sub_id :: string
  d_sub_class :: classes
  d_table_id :: string
  d_cols :: "col_row list"

text \<open>
  The elements of the table that carry an \<open>id\<close>, in document order, each with its
  \<open>class\<close> attribute (\<open>None\<close> when the attribute is absent) and the number of its
  descendants of class \<open>output\<close>. \<open>$('#' + i)\<close> selects the first element with that id
  (ids are taken to consist of letters, digits, \<open>_\<close> and \<open>-\<close>, for which jQuery looks
  the id up as it is; the kernel sends numbers). The rest of the notebook page and the
  markup inside a rendered widget are taken not to use the ids of the table.
\<close>

fun cell_outputs :: "cell \<Rightarrow> nat" where
  "cell_outputs Loading = 0"
| "cell_outputs (Holder h w outs) = length outs"

fun cell_elements :: "cell \<Rightarrow> (string \<times> classes option \<times> nat) list" where
  "cell_elements Loading = []"
| "cell_elements (Holder h w outs) =
     [(w, if outs = [] then None else Some [''output_wrapper''], length outs)]"

definition col_elements :: "col_row \<Rightarrow> (string \<times> classes option \<times> nat) list" where
  "col_elements c =
     [(c_id c, Some (c_anchor c), 0),
      (c_cell_id c, Some (c_cell_class c), cell_outputs (c_cell c))]
     @ cell_elements (c_cell c)"

definition cols_outputs :: "col_row list \<Rightarrow> nat" where
  "cols_outputs cs = sum_list (map (\<lambda>c. cell_outputs (c_cell c)) cs)"

definition df_elements :: "df_row \<Rightarrow> (string \<times> classes option \<times> nat) list" where
  "df_elements r =
     [(d_pipe_id r, Some (d_pipe_class r), cell_outputs (d_pipe r))]
     @ cell_elements (d_pipe r)
     @ [(d_sub_id r, Some (d_sub_class r), cols_outputs (d_cols r)),
        (d_table_id r, Some [''tablesorter''], cols_outputs (d_cols r))]
     @ concat (map col_elements (d_cols r))"

definition elements :: "df_row list \<Rightarrow> (string \<times> classes option \<times> nat) list" where
  "elements t = concat (map df_elements t)"

definition attr_class :: "df_row list \<Rightarrow> string \<Rightarrow> classes option" where
  "attr_class t i = (case map_of (elements t) i of None \<Rightarrow> None | Some (cl, n) \<Rightarrow> cl)"

definition find_output :: "df_row list \<Rightarrow> string \<Rightarrow> nat" where
  "find_output t i = (case map_of (elements t) i of None \<Rightarrow> 0 | Some (cl, n) \<Rightarrow> n)"

section \<open>The renderer\<close>

definition render_col :: "df_row list \<Rightarrow> string \<Rightarrow> column \<Rightarrow> col_row" where
  "render_col t f col =
     \<lparr> c_frame = f, c_id = colId col, c_anchor = [''toggleColumn'', ''arrow-right''],
       c_name = colname col, c_dtype = dtype col, c_nulls = null_percentage col,
       c_distinct = distinct_count col,
       c_cell_id = colId col @ ''_row'',
       c_cell_class = (case attr_class t (colId col @ ''_row'') of
                         None \<Rightarrow> [''hidden''] | Some cl \<Rightarrow> cl),
       c_cell = Loading \<rparr>"

definition render_df :: "df_row list \<Rightarrow> dataframe \<Rightarrow> df_row" where
  "render_df t d =
     \<lparr> d_frame = dfId d, d_anchor = [''toggleDataframe'', ''arrow-right''],
       d_name = dfName d, d_shape = dfShape d, d_colnames = dfColnames d,
       d_pipe_id = dfId d @ ''_row'',
       d_pipe_class = (case attr_class t (dfId d @ ''_row'') of
                         None \<Rightarrow> [''pipeline_widget'', ''hidden''] | Some cl \<Rightarrow> cl),
       d_pipe = Loading,
       d_sub_id = ''table_'' @ dfId d,
       d_sub_class = (case attr_class t (''table_'' @ dfId d) of
                        None \<Rightarrow> [''hidden''] | Some cl \<Rightarrow> cl),
       d_table_id = dfId d,
       d_cols = map (render_col t (dfId d)) (dfCols d) \<rparr>"

text \<open>
  The loop body of \<open>html_table\<close> on the entries of an array that need not be descriptors.
  Reading a property of \<open>null\<close> or \<open>undefined\<close> raises \<open>TypeError\<close>: \<open>dfList[i].dfId\<close> on a
  \<open>null\<close> entry, \<open>dfList[i].dfCols.length\<close> without \<open>dfCols\<close>, \<open>col.colId\<close> on a \<open>null\<close>
  column, \<open>col.description.dtype\<close> without \<open>description\<close>. Up to there the body only builds
  a string, so the first entry that raises decides the result.
\<close>

fun render_cols :: "df_row list \<Rightarrow> string \<Rightarrow> col_entry list \<Rightarrow> error + col_row list" where
  "render_cols t f [] = Inr []"
| "render_cols t f (Column col # cs) =
     (case render_cols t f cs of Inl e \<Rightarrow> Inl e | Inr rs \<Rightarrow> Inr (render_col t f col # rs))"
| "render_cols t f (Null_column # cs) = Inl TypeError"
| "render_cols t f (No_description # cs) = Inl TypeError"

fun render_entry :: "df_row list \<Rightarrow> frame_entry \<Rightarrow> error + df_row" where
  "render_entry t Null_frame = Inl TypeError"
| "render_entry t No_dfCols = Inl TypeError"
| "render_entry t (Frame i n sh cn cols) =
     (case render_cols t i cols of
        Inl e \<Rightarrow> Inl e
      | Inr cs \<Rightarrow>
          Inr ((render_df t \<lparr>dfId = i, dfName = n, dfShape = sh, dfColnames = cn, dfCols = []\<rparr>)
                 \<lparr>d_cols := cs\<rparr>))"

fun render_entries :: "df_row list \<Rightarrow> frame_entry list \<Rightarrow> error + df_row list" where
  "render_entries t [] = Inr []"
| "render_entries t (e # es) =
     (case render_entry t e of
        Inl x \<Rightarrow> Inl x
      | Inr r \<Rightarrow> (case render_entries t es of Inl x \<Rightarrow> Inl x | Inr rs \<Rightarrow> Inr (r # rs)))"

text \<open>
  \<open>html_table\<close>: \<open>JSON.parse\<close> first (it raises on a text that is no JSON), then
  \<open>dfList.length\<close> (it raises on \<open>null\<close>), then one row group per entry, in the order of
  the array. The first argument is the table now in the document, which the class
  lookups read. The result is the pair of the new rows and the new value of the global
  \<open>n_dataframes\<close>. The assignment to the undeclared \<open>col\<close> in the inner loop does not
  raise: the string \<open>"use strict"\<close> of the module follows a statement, so it is no
  directive.
\<close>

definition html_table :: "df_row list \<Rightarrow> stream_text \<Rightarrow> error + (df_row list \<times> nat)" where
  "html_table t jsonDataframes =
     (case jsonDataframes of
        Descriptors dfList \<Rightarrow> Inr (map (render_df t) dfList, length dfList)
      | Entries es \<Rightarrow>
          (case render_entries t es of Inl e \<Rightarrow> Inl e | Inr rs \<Rightarrow> Inr (rs, length es))
      | Json_null \<Rightarrow> Inl TypeError
      | Unparseable \<Rightarrow> Inl SyntaxError
      | Undefined \<Rightarrow> Inl SyntaxError)"

section \<open>Extension state\<close>

text \<open>
  Every call of \<open>Jupyter.notebook.kernel.execute\<close> is recorded, oldest first: the
  introspection command \<open>cfg.python.varRefreshCmd\<close>, the snippet that creates
  \<open>_datacleaner\<close>, and the two widget requests with the dataframe id, the column id and
  the handle of the \<open>div\<close> their reply handler writes into.
\<close>

datatype request =
    VarRefreshCmd
  | CreateDatacleaner
  | ColumnWidget string string nat
  | PipelineWidget string nat

record metadata_datacleaner =
  window_display :: "bool option"

record badge =
  badge_content :: nat
  badge_hidden :: bool

text \<open>
  \<open>wrapper\<close> is \<open>#datacleaner-wrapper\<close>: \<open>None\<close> while the element does not exist,
  otherwise whether it is displayed. \<open>inspector\<close> is the content of \<open>#datacleaner\<close>:
  \<open>None\<close> until the first redraw, then the rows of the table. \<open>iosb\<close> is the badge
  element of the toolbar button, \<open>metadata\<close> is \<open>Jupyter.notebook.metadata.datacleaner\<close>,
  \<open>listeners\<close> counts the \<open>varRefresh\<close> handlers registered on the event bus.
  A kernel is taken to be attached and the toolbar button to exist.
\<close>

record state =
  wrapper :: "bool option"
  inspector :: "df_row list option"
  n_dataframes :: nat
  iosb :: "badge option"
  next_holder :: nat
  kernel_log :: "request list"
  console :: "string list"
  metadata :: "metadata_datacleaner option"
  dirty :: bool
  listeners :: nat

definition rows :: "state \<Rightarrow> df_row list" where
  "rows s = (case inspector s of None \<Rightarrow> [] | Some t \<Rightarrow> t)"

section \<open>Widget loader\<close>

text \<open>
  \<open>output_area.handle_output(msg)\<close> on the \<open>div\<close> with handle \<open>h\<close>: a new output area
  is appended to it. A \<open>div\<close> that a later \<open>.html(...)\<close> removed from the document is no
  longer part of the state, and writing into it changes nothing that can be seen.
\<close>

fun inject_cell :: "nat \<Rightarrow> string \<Rightarrow> cell \<Rightarrow> cell" where
  "inject_cell h p Loading = Loading"
| "inject_cell h p (Holder h' w outs) =
     (if h' = h then Holder h' w (outs @ [p]) else Holder h' w outs)"

definition inject_col :: "nat \<Rightarrow> string \<Rightarrow> col_row \<Rightarrow> col_row" where
  "inject_col h p c = c\<lparr>c_cell := inject_cell h p (c_cell c)\<rparr>"

definition inject :: "nat \<Rightarrow> string \<Rightarrow> df_row \<Rightarrow> df_row" where
  "inject h p r =
     r\<lparr>d_pipe := inject_cell h p (d_pipe r), d_cols := map (inject_col h p) (d_cols r)\<rparr>"

definition display_widgets :: "msg \<Rightarrow> nat \<Rightarrow> state \<Rightarrow> state" where
  "display_widgets m output_wrapper s =
     (let s1 = (if msg_type m = ''display_data''
                then s\<lparr>inspector := map_option (map (inject output_wrapper (payload m))) (inspector s)\<rparr>
                else s)
      in if msg_type m = ''error''
         then s1\<lparr>console := console s1 @ [evalue m, traceback m]\<rparr>
         else s1)"

text \<open>
  \<open>$('#' + i).html(c)\<close>: the content of the first element with id \<open>i\<close> is replaced.
  The elements are visited in document order. When the first element with that id is a
  placeholder cell its content becomes \<open>c\<close>. When it is another element (an anchor, an
  inner table, the cell around it, an injected \<open>div\<close>), which takes two ids of the
  descriptor list that clash, the source overwrites that element; such documents are not
  covered and are left as they are. \<open>None\<close>: no element has the id.
\<close>

fun set_html_cols :: "string \<Rightarrow> cell \<Rightarrow> col_row list \<Rightarrow> col_row list option" where
  "set_html_cols i c [] = None"
| "set_html_cols i c (x # xs) =
     (if c_id x = i then Some (x # xs)
      else if c_cell_id x = i then Some (x\<lparr>c_cell := c\<rparr> # xs)
      else if i \<in> fst ` set (cell_elements (c_cell x)) then Some (x # xs)
      else map_option ((#) x) (set_html_cols i c xs))"

fun set_html_rows :: "string \<Rightarrow> cell \<Rightarrow> df_row list \<Rightarrow> df_row list option" where
  "set_html_rows i c [] = None"
| "set_html_rows i c (r # rs) =
     (if d_pipe_id r = i then Some (r\<lparr>d_pipe := c\<rparr> # rs)
      else if i \<in> fst ` set (cell_elements (d_pipe r)) then Some (r # rs)
      else if d_sub_id r = i \<or> d_table_id r = i then Some (r # rs)
      else (case set_html_cols i c (d_cols r) of
              Some cs \<Rightarrow> Some (r\<lparr>d_cols := cs\<rparr> # rs)
            | None \<Rightarrow> map_option ((#) r) (set_html_rows i c rs)))"

definition set_html :: "string \<Rightarrow> cell \<Rightarrow> df_row list \<Rightarrow> df_row list" where
  "set_html i c t = (case set_html_rows i c t of None \<Rightarrow> t | Some t' \<Rightarrow> t')"

text \<open>
  The two loaders take the attributes of the anchor they are called with:
  \<open>data-frame-id\<close> and, for a column, \<open>id\<close>.
\<close>

definition display_column_widget :: "string \<Rightarrow> string \<Rightarrow> state \<Rightarrow> state" where
  "display_column_widget dataframe_id column_id s =
     (if wrapper s = Some True then
        (if find_output (rows s) (column_id @ ''_widget'') = 0 then
           s\<lparr>inspector := map_option
                 (set_html (column_id @ ''_row'')
                    (Holder (next_holder s) (column_id @ ''_widget'') [])) (inspector s),
             next_holder := Suc (next_holder s),
             kernel_log := kernel_log s @ [ColumnWidget dataframe_id column_id (next_holder s)]\<rparr>
         else s)
      else s)"

definition display_pipeline_widget :: "string \<Rightarrow> state \<Rightarrow> state" where
  "display_pipeline_widget dataframe_id s =
     (if wrapper s = Some True then
        (if find_output (rows s) (dataframe_id @ ''_widget'') = 0 then
           s\<lparr>inspector := map_option
                 (set_html (dataframe_id @ ''_row'')
                    (Holder (next_holder s) (dataframe_id @ ''_widget'') [])) (inspector s),
             next_holder := Suc (next_holder s),
             kernel_log := kernel_log s @ [PipelineWidget dataframe_id (next_holder s)]\<rparr>
         else s)
      else s)"

section \<open>Click handlers\<close>

definition toggleClass :: "string \<Rightarrow> classes \<Rightarrow> classes" where
  "toggleClass c cl = (if c \<in> set cl then removeAll c cl else cl @ [c])"

definition toggle_arrow :: "classes \<Rightarrow> classes" where
  "toggle_arrow cl = toggleClass ''arrow-down'' (toggleClass ''arrow-right'' cl)"

text \<open>
  The handlers are bound to the tables of each redraw. A click on the anchor of column
  \<open>j\<close> of dataframe \<open>i\<close> (positions in the table) toggles \<open>hidden\<close> on the cell of the
  child row that follows, flips the arrow and calls the loader, whichever way the cell
  was toggled. A click on the anchor of dataframe \<open>i\<close> does so for the two child rows
  that follow: the pipeline cell and the cell around the column table.
\<close>

definition click_toggleColumn :: "nat \<Rightarrow> nat \<Rightarrow> state \<Rightarrow> state" where
  "click_toggleColumn i j s =
     (case inspector s of
        None \<Rightarrow> s
      | Some t \<Rightarrow>
          if i < length t \<and> j < length (d_cols (t ! i)) then
            (let r = t ! i;
                 c = d_cols r ! j;
                 c' = c\<lparr>c_cell_class := toggleClass ''hidden'' (c_cell_class c),
                        c_anchor := toggle_arrow (c_anchor c)\<rparr>;
                 r' = r\<lparr>d_cols := (d_cols r)[j := c']\<rparr>
             in display_column_widget (c_frame c) (c_id c) (s\<lparr>inspector := Some (t[i := r'])\<rparr>))
          else s)"

definition click_toggleDataframe :: "nat \<Rightarrow> state \<Rightarrow> state" where
  "click_toggleDataframe i s =
     (case inspector s of
        None \<Rightarrow> s
      | Some t \<Rightarrow>
          if i < length t then
            (let r = t ! i;
                 r' = r\<lparr>d_pipe_class := toggleClass ''hidden'' (d_pipe_class r),
                        d_sub_class := toggleClass ''hidden'' (d_sub_class r),
                        d_anchor := toggle_arrow (d_anchor r)\<rparr>
             in display_pipeline_widget (d_frame r) (s\<lparr>inspector := Some (t[i := r'])\<rparr>))
          else s)"

section \<open>Poller, redraw and panel\<close>

text \<open>
  \<open>varRefresh\<close> asks \<open>require\<close> for the table sorter and sends the introspection command
  from the callback; the definition is that callback.
\<close>

definition varRefresh :: "state \<Rightarrow> state" where
  "varRefresh s = s\<lparr>kernel_log := kernel_log s @ [VarRefreshCmd]\<rparr>"

text \<open>
  \<open>create_datacleaner_div\<close>, as far as the visibility of the new panel goes: appended to
  the body it is displayed; it is hidden by \<open>css('display','none')\<close> when the metadata
  have a \<open>window_display\<close>, and by \<open>toggle()\<close> when there are no metadata at all.
\<close>

definition create_datacleaner_div :: "state \<Rightarrow> state" where
  "create_datacleaner_div s =
     s\<lparr>wrapper := Some (case metadata s of None \<Rightarrow> False | Some m \<Rightarrow> window_display m = None),
       inspector := None\<rparr>"

text \<open>
  \<open>data_cleaner\<close> makes the panel when there is none and calls \<open>varRefresh\<close> last. Where
  it is the last thing its caller does, as in the \<open>complete\<close> callback of the toggle, the
  callback of \<open>varRefresh\<close> is the next thing of this module to run and is run here.
\<close>

definition data_cleaner :: "state \<Rightarrow> state" where
  "data_cleaner s = varRefresh (if wrapper s = None then create_datacleaner_div s else s)"

text \<open>
  \<open>datacleaner_init\<close>, up to its return. Its call of \<open>data_cleaner\<close> makes the panel when
  there is none; the kernel call of the \<open>varRefresh\<close> in it is made by a \<open>require\<close>
  callback, which runs only after \<open>datacleaner_init\<close> has returned, so it is not among
  the calls recorded here (\<open>varRefresh\<close> above is that callback). Then the snippet that
  creates \<open>_datacleaner\<close> goes to the kernel and two more \<open>varRefresh\<close> handlers are put
  on the event bus. \<open>read_config\<close> only schedules its continuation for the time the
  configuration is loaded; like the poll it runs after the return and is no part of this
  function.
\<close>

definition datacleaner_init :: "state \<Rightarrow> state" where
  "datacleaner_init s =
     (let s1 = (if wrapper s = None then create_datacleaner_div s else s)
      in s1\<lparr>kernel_log := kernel_log s1 @ [CreateDatacleaner], listeners := listeners s1 + 2\<rparr>)"

definition open_column :: "col_row \<Rightarrow> bool" where
  "open_column c = (''hidden'' \<notin> set (c_cell_class c))"

definition open_dataframe :: "df_row \<Rightarrow> bool" where
  "open_dataframe r =
     (\<not> (''pipeline_widget'' \<in> set (d_pipe_class r) \<and> ''hidden'' \<in> set (d_pipe_class r)))"

definition mark_col :: "col_row \<Rightarrow> col_row" where
  "mark_col c = (if open_column c then c\<lparr>c_anchor := toggle_arrow (c_anchor c)\<rparr> else c)"

definition mark_df :: "df_row \<Rightarrow> df_row" where
  "mark_df r = (if open_dataframe r then r\<lparr>d_anchor := toggle_arrow (d_anchor r)\<rparr> else r)"

text \<open>
  The two \<open>each\<close> loops that redisplay the open widgets: first every column anchor
  in document order, then every dataframe anchor. An iteration flips the arrow of its own
  anchor and calls the loader, which writes cell contents only; so the arrows of a loop
  are set first and the loader calls follow in the order of the anchors.
\<close>

definition redisplay_columns :: "state \<Rightarrow> state" where
  "redisplay_columns s =
     (let t = rows s;
          s1 = s\<lparr>inspector := map_option (map (\<lambda>r. r\<lparr>d_cols := map mark_col (d_cols r)\<rparr>)) (inspector s)\<rparr>
      in fold (\<lambda>c. display_column_widget (c_frame c) (c_id c))
              (filter open_column (concat (map d_cols t))) s1)"

definition redisplay_dataframes :: "state \<Rightarrow> state" where
  "redisplay_dataframes s =
     (let t = rows s;
          s1 = s\<lparr>inspector := map_option (map mark_df) (inspector s)\<rparr>
      in fold (\<lambda>r. display_pipeline_widget (d_frame r)) (filter open_dataframe t) s1)"

text \<open>
  Modelled from the spec: the \<open>iosbadge\<close> plugin of the toolbar button is not part of the
  sources; \<open>iosbadge({content: n})\<close> is taken to show \<open>n\<close> on the badge, creating the badge
  element when the button has none.
\<close>

definition iosbadge :: "nat \<Rightarrow> badge option \<Rightarrow> badge option" where
  "iosbadge n b =
     (case b of None \<Rightarrow> Some \<lparr>badge_content = n, badge_hidden = False\<rparr>
              | Some x \<Rightarrow> Some (x\<lparr>badge_content := n\<rparr>))"

definition update_badge :: "state \<Rightarrow> state" where
  "update_badge s =
     (if n_dataframes s > 0
      then s\<lparr>iosb := map_option (\<lambda>b. b\<lparr>badge_hidden := False\<rparr>) (iosbadge (n_dataframes s) (iosb s))\<rparr>
      else s\<lparr>iosb := map_option (\<lambda>b. b\<lparr>badge_hidden := True\<rparr>) (iosb s)\<rparr>)"

text \<open>
  \<open>code_exec_callback\<close>, the handler of the replies to the introspection command.
  \<open>$('#datacleaner').html(...)\<close> replaces the table when the panel exists. An exception of
  \<open>html_table\<close> leaves the handler. The \<open>tablesorter\<close> plugin that is started afterwards
  is not part of the sources and is left out.
\<close>

definition code_exec_callback :: "msg \<Rightarrow> state \<Rightarrow> error + state" where
  "code_exec_callback m s =
     (case (if msg_type m = ''stream'' then
              (if content_text m = Undefined then Inr (datacleaner_init s)
               else (case html_table (rows s) (content_text m) of
                       Inl e \<Rightarrow> Inl e
                     | Inr (t, n) \<Rightarrow>
                         Inr (redisplay_dataframes (redisplay_columns (update_badge
                               (s\<lparr>inspector := (if wrapper s = None then inspector s else Some t),
                                  n_dataframes := n\<rparr>))))))
            else Inr s) of
        Inl e \<Rightarrow> Inl e
      | Inr s' \<Rightarrow>
          Inr (if msg_type m = ''error''
               then s'\<lparr>console := console s' @ [evalue m, traceback m]\<rparr>
               else s'))"

text \<open>
  The handler that the two loaders register for the replies to a widget request,
  \<open>function(msg){display_widgets(msg, output_wrapper)}\<close>, with the handle of the \<open>div\<close> it
  closes over. Nothing in \<open>display_widgets\<close> raises.
\<close>

definition output_callback :: "nat \<Rightarrow> msg \<Rightarrow> state \<Rightarrow> error + state" where
  "output_callback output_wrapper m s = Inr (display_widgets m output_wrapper s)"

text \<open>
  \<open>toggle_datacleaner\<close>: nothing happens without a panel. Otherwise the panel is shown or
  hidden and the \<open>complete\<close> callback stores whether it is displayed in the metadata
  (a \<open>TypeError\<close> when the notebook has no \<open>datacleaner\<close> metadata), marks the notebook
  dirty and calls \<open>data_cleaner\<close>.
\<close>

definition toggle_datacleaner :: "state \<Rightarrow> error + state" where
  "toggle_datacleaner s =
     (case wrapper s of
        None \<Rightarrow> Inr s
      | Some v \<Rightarrow>
          (case metadata s of
             None \<Rightarrow> Inl TypeError
           | Some m \<Rightarrow>
               Inr (data_cleaner
                     (s\<lparr>wrapper := Some (\<not> v),
                        metadata := Some (m\<lparr>window_display := Some (\<not> v)\<rparr>),
                        dirty := True\<rparr>))))"

section \<open>Notions used in the properties\<close>

text \<open>
  A row with the content of its placeholder cells and the classes of its anchors
  forgotten: what is left are the ids, the texts and the classes of the cells.
\<close>

definition blank_col :: "col_row \<Rightarrow> col_row" where
  "blank_col c = c\<lparr>c_cell := Loading, c_anchor := []\<rparr>"

definition blank :: "df_row \<Rightarrow> df_row" where
  "blank r = r\<lparr>d_pipe := Loading, d_anchor := [], d_cols := map blank_col (d_cols r)\<rparr>"

text \<open>No cell of the table has a rendered output: every loader call finds nothing.\<close>

definition unloaded :: "df_row list \<Rightarrow> bool" where
  "unloaded t =
     list_all (\<lambda>r. cell_outputs (d_pipe r) = 0
                   \<and> list_all (\<lambda>c. cell_outputs (c_cell c) = 0) (d_cols r)) t"

text \<open>The panel is displayed and nothing is loaded: every loader call issues its request.\<close>

definition ready :: "state \<Rightarrow> bool" where
  "ready s = (wrapper s = Some True \<and> unloaded (rows s))"

text \<open>
  The anchors for which the two redisplay loops call the loaders, as the attributes
  the loaders read from them.
\<close>

definition open_columns :: "df_row list \<Rightarrow> (string \<times> string) list" where
  "open_columns t = map (\<lambda>c. (c_frame c, c_id c)) (filter open_column (concat (map d_cols t)))"

definition open_dataframes :: "df_row list \<Rightarrow> string list" where
  "open_dataframes t = map d_frame (filter open_dataframe t)"

text \<open>The ids of a list of elements with their numbers of rendered outputs, classes dropped.\<close>

definition id_outputs :: "(string \<times> classes option \<times> nat) list \<Rightarrow> (string \<times> nat) list" where
  "id_outputs es = map (\<lambda>(i, cl, n). (i, n)) es"

text \<open>
  What a row group of the table shows, and what a descriptor says: the ids and the
  texts of the dataframe and of its columns, in order.
\<close>

definition drawn_col :: "col_row \<Rightarrow> string \<times> string \<times> string \<times> string \<times> string" where
  "drawn_col c = (c_id c, c_name c, c_dtype c, c_nulls c, c_distinct c)"

definition drawn ::
  "df_row \<Rightarrow> string \<times> string \<times> string \<times> string \<times> (string \<times> string \<times> string \<times> string \<times> string) list" where
  "drawn r = (d_frame r, d_name r, d_shape r, d_colnames r, map drawn_col (d_cols r))"

definition described_col :: "column \<Rightarrow> string \<times> string \<times> string \<times> string \<times> string" where
  "described_col c = (colId c, colname c, dtype c, null_percentage c, distinct_count c)"

definition described ::
  "dataframe \<Rightarrow> string \<times> string \<times> string \<times> string \<times> (string \<times> string \<times> string \<times> string \<times> string) list" where
  "described d = (dfId d, dfName d, dfShape d, dfColnames d, map described_col (dfCols d))"

text \<open>The entries and columns that the loop body reads to the end.\<close>

fun well_formed_col :: "col_entry \<Rightarrow> bool" where
  "well_formed_col (Column col) = True"
| "well_formed_col Null_column = False"
| "well_formed_col No_description = False"

fun well_formed :: "frame_entry \<Rightarrow> bool" where
  "well_formed (Frame i n sh cn cols) = list_all well_formed_col cols"
| "well_formed Null_frame = False"
| "well_formed No_dfCols = False"

text \<open>A list of descriptors as an array of entries.\<close>

definition entries_of :: "dataframe list \<Rightarrow> frame_entry list" where
  "entries_of D =
     map (\<lambda>d. Frame (dfId d) (dfName d) (dfShape d) (dfColnames d) (map Column (dfCols d))) D"

text \<open>The ids that \<open>html_table\<close> gives to the elements it writes for one descriptor.\<close>

definition descriptor_ids :: "dataframe \<Rightarrow> string list" where
  "descriptor_ids d =
     [dfId d @ ''_row'', ''table_'' @ dfId d, dfId d]
     @ concat (map (\<lambda>c. [colId c, colId c @ ''_row'']) (dfCols d))"

section \<open>A small notebook\<close>

text \<open>
  One dataframe \<open>df\<close> with one column \<open>a\<close>, drawn collapsed, with the panel hidden and
  with the panel displayed.
\<close>

definition frame1 :: dataframe where
  "frame1 = \<lparr>dfId = ''1'', dfName = ''df'', dfShape = ''3x2'', dfColnames = ''a'',
      dfCols = [\<lparr>colId = ''2'', colname = ''a'', dtype = ''int64'',
                 null_percentage = ''0%'', distinct_count = ''3''\<rparr>]\<rparr>"

definition frame3 :: dataframe where
  "frame3 = \<lparr>dfId = ''3'', dfName = ''other'', dfShape = ''5x1'', dfColnames = ''b'',
      dfCols = [\<lparr>colId = ''4'', colname = ''b'', dtype = ''float64'',
                 null_percentage = ''20%'', distinct_count = ''4''\<rparr>]\<rparr>"

definition panel_hidden :: state where
  "panel_hidden =
     \<lparr>wrapper = Some False, inspector = Some [render_df [] frame1], n_dataframes = 1,
      iosb = Some \<lparr>badge_content = 1, badge_hidden = False\<rparr>, next_holder = 0,
      kernel_log = [], console = [], metadata = Some \<lparr>window_display = Some False\<rparr>,
      dirty = False, listeners = 2\<rparr>"

definition panel_visible :: state where
  "panel_visible = panel_hidden\<lparr>wrapper := Some True\<rparr>"

definition stream_msg :: "stream_text \<Rightarrow> msg" where
  "stream_msg t = \<lparr>msg_type = ''stream'', content_text = t, evalue = [], traceback = [], payload = []\<rparr>"

definition widget_msg :: "string \<Rightarrow> msg" where
  "widget_msg ty = \<lparr>msg_type = ty, content_text = Undefined, evalue = ''NameError'',
      traceback = ''Traceback'', payload = ''widget''\<rparr>"

text \<open>The dataframe row has been clicked once: it is open and its widget is requested.\<close>

definition panel_loading :: state where
  "panel_loading = click_toggleDataframe 0 panel_visible"

text \<open>The reply has arrived: the widget is rendered in the open row.\<close>

definition panel_loaded :: state where
  "panel_loaded = display_widgets (widget_msg ''display_data'') 0 panel_loading"

text \<open>The column of the open dataframe row has been clicked as well.\<close>

definition panel_column_open :: state where
  "panel_column_open = click_toggleColumn 0 0 panel_loaded"

section \<open>Auxiliary facts\<close>

lemma set_html_cols_blank:
  "set_html_cols i c xs = Some ys \<Longrightarrow> map blank_col ys = map blank_col xs"
  by (induction xs arbitrary: ys) (auto simp: blank_col_def split: if_splits)

lemma set_html_rows_blank:
  "set_html_rows i c t = Some t' \<Longrightarrow> map blank t' = map blank t"
proof (induction t arbitrary: t')
  case Nil
  then show ?case by simp
next
  case (Cons r rs)
  then show ?case
    by (auto simp: blank_def dest: set_html_cols_blank split: if_splits option.splits)
qed

lemma set_html_blank: "map blank (set_html i c t) = map blank t"
  by (simp add: set_html_def set_html_rows_blank split: option.splits)

lemma set_html_cols_unloaded:
  "set_html_cols i c xs = Some ys \<Longrightarrow> cell_outputs c = 0 \<Longrightarrow>
   list_all (\<lambda>x. cell_outputs (c_cell x) = 0) xs \<Longrightarrow> list_all (\<lambda>x. cell_outputs (c_cell x) = 0) ys"
  by (induction xs arbitrary: ys) (auto split: if_splits)

lemma set_html_rows_unloaded:
  "set_html_rows i c t = Some t' \<Longrightarrow> cell_outputs c = 0 \<Longrightarrow> unloaded t \<Longrightarrow> unloaded t'"
proof (induction t arbitrary: t')
  case Nil
  then show ?case by simp
next
  case (Cons r rs)
  then show ?case
    by (auto simp: unloaded_def dest: set_html_cols_unloaded split: if_splits option.splits)
qed

lemma set_html_unloaded: "cell_outputs c = 0 \<Longrightarrow> unloaded t \<Longrightarrow> unloaded (set_html i c t)"
  by (simp add: set_html_def set_html_rows_unloaded split: option.splits)

lemma cell_elements_unloaded: "cell_outputs c = 0 \<Longrightarrow> (i, cl, n) \<in> set (cell_elements c) \<Longrightarrow> n = 0"
  by (cases c) auto

lemma cols_outputs_unloaded:
  "list_all (\<lambda>c. cell_outputs (c_cell c) = 0) cs \<Longrightarrow> cols_outputs cs = 0"
  by (induction cs) (auto simp: cols_outputs_def)

lemma elements_unloaded:
  assumes "unloaded t" and "(i, cl, n) \<in> set (elements t)"
  shows "n = 0"
proof -
  from assms(2) obtain r where r: "r \<in> set t" and e: "(i, cl, n) \<in> set (df_elements r)"
    by (auto simp: elements_def)
  from assms(1) r have p: "cell_outputs (d_pipe r) = 0"
    and cs: "list_all (\<lambda>c. cell_outputs (c_cell c) = 0) (d_cols r)"
    by (auto simp: unloaded_def list_all_iff)
  from e consider "n = cell_outputs (d_pipe r)" | "(i, cl, n) \<in> set (cell_elements (d_pipe r))"
    | "n = cols_outputs (d_cols r)"
    | c where "c \<in> set (d_cols r)" "(i, cl, n) \<in> set (col_elements c)"
    by (auto simp: df_elements_def)
  then show ?thesis
  proof cases
    case 1 with p show ?thesis by simp
  next
    case 2 with p show ?thesis by (auto dest: cell_elements_unloaded)
  next
    case 3 with cs show ?thesis by (simp add: cols_outputs_unloaded)
  next
    case 4
    with cs have "cell_outputs (c_cell c) = 0" by (simp add: list_all_iff)
    with 4(2) show ?thesis
      by (auto simp: col_elements_def dest: cell_elements_unloaded)
  qed
qed

lemma find_output_unloaded: "unloaded t \<Longrightarrow> find_output t i = 0"
  by (auto simp: find_output_def split: option.splits dest!: map_of_SomeD elements_unloaded)

lemma display_column_widget_idle:
  "wrapper s \<noteq> Some True \<Longrightarrow> display_column_widget f c s = s"
  by (simp add: display_column_widget_def)

lemma display_pipeline_widget_idle:
  "wrapper s \<noteq> Some True \<Longrightarrow> display_pipeline_widget f s = s"
  by (simp add: display_pipeline_widget_def)

lemma display_column_widget_blank:
  "map blank (rows (display_column_widget f c s)) = map blank (rows s)"
  by (simp add: display_column_widget_def rows_def set_html_blank split: option.splits)

lemma display_pipeline_widget_blank:
  "map blank (rows (display_pipeline_widget f s)) = map blank (rows s)"
  by (simp add: display_pipeline_widget_def rows_def set_html_blank split: option.splits)

lemma display_column_widget_ready:
  assumes "ready s"
  shows "ready (display_column_widget f c s)"
    and "kernel_log (display_column_widget f c s) = kernel_log s @ [ColumnWidget f c (next_holder s)]"
    and "next_holder (display_column_widget f c s) = Suc (next_holder s)"
  using assms
  by (simp_all add: ready_def display_column_widget_def find_output_unloaded rows_def
      set_html_unloaded split: option.splits)

lemma display_pipeline_widget_ready:
  assumes "ready s"
  shows "ready (display_pipeline_widget f s)"
    and "kernel_log (display_pipeline_widget f s) = kernel_log s @ [PipelineWidget f (next_holder s)]"
    and "next_holder (display_pipeline_widget f s) = Suc (next_holder s)"
  using assms
  by (simp_all add: ready_def display_pipeline_widget_def find_output_unloaded rows_def
      set_html_unloaded split: option.splits)

lemma fold_columns_blank:
  "map blank (rows (fold (\<lambda>(f, c). display_column_widget f c) cs s)) = map blank (rows s)"
  by (induction cs arbitrary: s) (auto simp add: display_column_widget_blank)

lemma fold_dataframes_blank:
  "map blank (rows (fold display_pipeline_widget rs s)) = map blank (rows s)"
  by (induction rs arbitrary: s) (simp_all add: display_pipeline_widget_blank)

lemma fold_columns_idle:
  "wrapper s \<noteq> Some True \<Longrightarrow> fold (\<lambda>(f, c). display_column_widget f c) cs s = s"
  by (induction cs) (auto simp add: display_column_widget_idle)

lemma fold_dataframes_idle:
  "wrapper s \<noteq> Some True \<Longrightarrow> fold display_pipeline_widget rs s = s"
  by (induction rs) (simp_all add: display_pipeline_widget_idle)

lemma fold_columns_ready:
  "ready s \<Longrightarrow>
   ready (fold (\<lambda>(f, c). display_column_widget f c) cs s) \<and>
   next_holder (fold (\<lambda>(f, c). display_column_widget f c) cs s) = next_holder s + length cs \<and>
   kernel_log (fold (\<lambda>(f, c). display_column_widget f c) cs s) =
     kernel_log s @ map (\<lambda>(k, f, c). ColumnWidget f c k)
                        (enumerate (next_holder s) cs)"
proof (induction cs arbitrary: s)
  case Nil
  then show ?case by simp
next
  case (Cons x cs)
  obtain f c where x: "x = (f, c)" by (cases x)
  note d = display_column_widget_ready [OF Cons.prems, of f c]
  from Cons.IH [OF d(1)] show ?case
    by (simp add: d(2) d(3) x)
qed

lemma fold_dataframes_ready:
  "ready s \<Longrightarrow>
   ready (fold display_pipeline_widget rs s) \<and>
   next_holder (fold display_pipeline_widget rs s) = next_holder s + length rs \<and>
   kernel_log (fold display_pipeline_widget rs s) =
     kernel_log s @ map (\<lambda>(k, f). PipelineWidget f k)
                        (enumerate (next_holder s) rs)"
proof (induction rs arbitrary: s)
  case Nil
  then show ?case by simp
next
  case (Cons r rs)
  note d = display_pipeline_widget_ready [OF Cons.prems, of r]
  from Cons.IH [OF d(1)] show ?case
    by (simp add: d(2) d(3))
qed

lemma blank_mark_col [simp]: "blank_col (mark_col c) = blank_col c"
  by (simp add: blank_col_def mark_col_def)

lemma blank_mark_df [simp]: "blank (mark_df r) = blank r"
  by (simp add: blank_def mark_df_def)

lemma blank_mark_cols [simp]: "blank (r\<lparr>d_cols := map mark_col (d_cols r)\<rparr>) = blank r"
  by (simp add: blank_def comp_def)

lemma mark_col_cell [simp]: "c_cell (mark_col c) = c_cell c"
  by (simp add: mark_col_def)

lemma mark_df_cells [simp]: "d_pipe (mark_df r) = d_pipe r" "d_cols (mark_df r) = d_cols r"
  by (simp_all add: mark_df_def)

lemma unloaded_mark_cols:
  "unloaded (map (\<lambda>r. r\<lparr>d_cols := map mark_col (d_cols r)\<rparr>) t) = unloaded t"
  by (simp add: unloaded_def list_all_iff)

lemma unloaded_mark_df: "unloaded (map mark_df t) = unloaded t"
  by (simp add: unloaded_def list_all_iff)

lemma unloaded_render: "unloaded (map (render_df t) D)"
  by (simp add: unloaded_def list_all_iff render_df_def render_col_def)

lemma open_dataframes_blank:
  "map blank t' = map blank t \<Longrightarrow> open_dataframes t' = open_dataframes t"
proof (induction t' arbitrary: t)
  case Nil
  then show ?case by simp
next
  case (Cons r' rs')
  then obtain r rs where t: "t = r # rs" and b: "blank r' = blank r" and m: "map blank rs' = map blank rs"
    by (cases t) auto
  from b have "d_pipe_class (blank r') = d_pipe_class (blank r)" and "d_frame (blank r') = d_frame (blank r)"
    by simp_all
  then have "d_pipe_class r' = d_pipe_class r" and "d_frame r' = d_frame r"
    by (simp_all add: blank_def)
  then show ?case
    using Cons.IH [OF m] by (simp add: t open_dataframes_def open_dataframe_def)
qed

lemma redisplay_columns_eq:
  "redisplay_columns s =
     fold (\<lambda>(f, c). display_column_widget f c) (open_columns (rows s))
       (s\<lparr>inspector := map_option (map (\<lambda>r. r\<lparr>d_cols := map mark_col (d_cols r)\<rparr>)) (inspector s)\<rparr>)"
  by (simp add: redisplay_columns_def open_columns_def Let_def fold_map comp_def)

lemma redisplay_dataframes_eq:
  "redisplay_dataframes s =
     fold display_pipeline_widget (open_dataframes (rows s))
       (s\<lparr>inspector := map_option (map mark_df) (inspector s)\<rparr>)"
  by (simp add: redisplay_dataframes_def open_dataframes_def Let_def fold_map comp_def)

lemma rows_map:
  "rows (s\<lparr>inspector := map_option (map f) (inspector s)\<rparr>) = map f (rows s)"
  by (simp add: rows_def split: option.splits)

lemma redisplay_columns_blank: "map blank (rows (redisplay_columns s)) = map blank (rows s)"
  by (simp add: redisplay_columns_eq fold_columns_blank rows_map comp_def)

lemma redisplay_dataframes_blank: "map blank (rows (redisplay_dataframes s)) = map blank (rows s)"
  by (simp add: redisplay_dataframes_eq fold_dataframes_blank rows_map comp_def)

lemma redisplay_columns_idle:
  "wrapper s \<noteq> Some True \<Longrightarrow> kernel_log (redisplay_columns s) = kernel_log s
     \<and> wrapper (redisplay_columns s) = wrapper s
     \<and> unloaded (rows (redisplay_columns s)) = unloaded (rows s)"
  by (simp add: redisplay_columns_eq fold_columns_idle rows_map unloaded_mark_cols)

lemma redisplay_dataframes_idle:
  "wrapper s \<noteq> Some True \<Longrightarrow> kernel_log (redisplay_dataframes s) = kernel_log s
     \<and> wrapper (redisplay_dataframes s) = wrapper s
     \<and> unloaded (rows (redisplay_dataframes s)) = unloaded (rows s)"
  by (simp add: redisplay_dataframes_eq fold_dataframes_idle rows_map unloaded_mark_df)

lemma redisplay_columns_ready:
  assumes "ready s"
  shows "ready (redisplay_columns s)"
    and "next_holder (redisplay_columns s) = next_holder s + length (open_columns (rows s))"
    and "kernel_log (redisplay_columns s) =
           kernel_log s @ map (\<lambda>(k, f, c). ColumnWidget f c k)
                              (enumerate (next_holder s) (open_columns (rows s)))"
proof -
  let ?s1 = "s\<lparr>inspector := map_option (map (\<lambda>r. r\<lparr>d_cols := map mark_col (d_cols r)\<rparr>)) (inspector s)\<rparr>"
  have "ready ?s1"
    using assms by (simp add: ready_def rows_map unloaded_mark_cols)
  from fold_columns_ready [OF this, of "open_columns (rows s)"]
  show "ready (redisplay_columns s)"
    and "next_holder (redisplay_columns s) = next_holder s + length (open_columns (rows s))"
    and "kernel_log (redisplay_columns s) =
           kernel_log s @ map (\<lambda>(k, f, c). ColumnWidget f c k)
                              (enumerate (next_holder s) (open_columns (rows s)))"
    by (simp_all add: redisplay_columns_eq)
qed

lemma redisplay_dataframes_ready:
  assumes "ready s"
  shows "ready (redisplay_dataframes s)"
    and "next_holder (redisplay_dataframes s) = next_holder s + length (open_dataframes (rows s))"
    and "kernel_log (redisplay_dataframes s) =
           kernel_log s @ map (\<lambda>(k, f). PipelineWidget f k)
                              (enumerate (next_holder s) (open_dataframes (rows s)))"
proof -
  let ?s1 = "s\<lparr>inspector := map_option (map mark_df) (inspector s)\<rparr>"
  have "ready ?s1"
    using assms by (simp add: ready_def rows_map unloaded_mark_df)
  from fold_dataframes_ready [OF this, of "open_dataframes (rows s)"]
  show "ready (redisplay_dataframes s)"
    and "next_holder (redisplay_dataframes s) = next_holder s + length (open_dataframes (rows s))"
    and "kernel_log (redisplay_dataframes s) =
           kernel_log s @ map (\<lambda>(k, f). PipelineWidget f k)
                              (enumerate (next_holder s) (open_dataframes (rows s)))"
    by (simp_all add: redisplay_dataframes_eq)
qed

lemma display_column_widget_fields [simp]:
  "n_dataframes (display_column_widget f c s) = n_dataframes s"
  "iosb (display_column_widget f c s) = iosb s"
  "wrapper (display_column_widget f c s) = wrapper s"
  by (simp_all add: display_column_widget_def)

lemma display_pipeline_widget_fields [simp]:
  "n_dataframes (display_pipeline_widget f s) = n_dataframes s"
  "iosb (display_pipeline_widget f s) = iosb s"
  "wrapper (display_pipeline_widget f s) = wrapper s"
  by (simp_all add: display_pipeline_widget_def)

lemma fold_columns_fields [simp]:
  "n_dataframes (fold (\<lambda>(f, c). display_column_widget f c) cs s) = n_dataframes s"
  "iosb (fold (\<lambda>(f, c). display_column_widget f c) cs s) = iosb s"
  "wrapper (fold (\<lambda>(f, c). display_column_widget f c) cs s) = wrapper s"
  by (induction cs arbitrary: s) auto

lemma fold_dataframes_fields [simp]:
  "n_dataframes (fold display_pipeline_widget rs s) = n_dataframes s"
  "iosb (fold display_pipeline_widget rs s) = iosb s"
  "wrapper (fold display_pipeline_widget rs s) = wrapper s"
  by (induction rs arbitrary: s) auto

lemma redisplay_fields [simp]:
  "n_dataframes (redisplay_columns s) = n_dataframes s"
  "iosb (redisplay_columns s) = iosb s"
  "wrapper (redisplay_columns s) = wrapper s"
  "n_dataframes (redisplay_dataframes s) = n_dataframes s"
  "iosb (redisplay_dataframes s) = iosb s"
  "wrapper (redisplay_dataframes s) = wrapper s"
  by (simp_all add: redisplay_columns_eq redisplay_dataframes_eq)

lemma update_badge_fields [simp]:
  "inspector (update_badge s) = inspector s" "wrapper (update_badge s) = wrapper s"
  "kernel_log (update_badge s) = kernel_log s" "next_holder (update_badge s) = next_holder s"
  "n_dataframes (update_badge s) = n_dataframes s" "rows (update_badge s) = rows s"
  by (simp_all add: update_badge_def rows_def)

lemma redraw:
  assumes m: "msg_type m = ''stream''" "content_text m = Descriptors D" and w: "wrapper s = Some v"
  defines "t \<equiv> map (render_df (rows s)) D"
  shows "\<exists>s'. code_exec_callback m s = Inr s'
           \<and> map blank (rows s') = map blank t \<and> unloaded (rows s') \<and> wrapper s' = Some v
           \<and> n_dataframes s' = length D
           \<and> kernel_log s' = kernel_log s @
                (if v then map (\<lambda>(k, f, c). ColumnWidget f c k) (enumerate (next_holder s) (open_columns t))
                           @ map (\<lambda>(k, f). PipelineWidget f k)
                               (enumerate (next_holder s + length (open_columns t)) (open_dataframes t))
                 else [])"
proof -
  let ?s0 = "update_badge (s\<lparr>inspector := Some t, n_dataframes := length D\<rparr>)"
  let ?s1 = "redisplay_columns ?s0"
  let ?s2 = "redisplay_dataframes ?s1"
  have r0: "rows ?s0 = t" by (simp add: rows_def)
  have c: "code_exec_callback m s = Inr ?s2"
    using m w by (simp add: code_exec_callback_def html_table_def t_def)
  have b1: "map blank (rows ?s1) = map blank t"
    using redisplay_columns_blank [of ?s0] r0 by simp
  have b2: "map blank (rows ?s2) = map blank t"
    using redisplay_dataframes_blank [of ?s1] b1 by simp
  have n: "n_dataframes ?s2 = length D"
    by simp
  show ?thesis
  proof (cases v)
    case True
    have "ready ?s0" using w True r0 by (simp add: ready_def t_def unloaded_render)
    note c1 = redisplay_columns_ready [OF this]
    note c2 = redisplay_dataframes_ready [OF c1(1)]
    have "open_dataframes (rows ?s1) = open_dataframes t"
      by (rule open_dataframes_blank [OF b1])
    with c c1 c2 b2 True r0 show ?thesis
      by (simp add: ready_def)
  next
    case False
    then have i0: "wrapper ?s0 \<noteq> Some True" using w by simp
    note c1 = redisplay_columns_idle [OF i0]
    then have i1: "wrapper ?s1 \<noteq> Some True" using i0 by simp
    note c2 = redisplay_dataframes_idle [OF i1]
    have "unloaded (rows ?s0)" using r0 by (simp add: t_def unloaded_render)
    with c c1 c2 b2 False w show ?thesis
      by simp
  qed
qed

lemma blank_fields [simp]:
  "d_frame (blank r) = d_frame r" "d_pipe_id (blank r) = d_pipe_id r"
  "d_pipe_class (blank r) = d_pipe_class r" "d_sub_id (blank r) = d_sub_id r"
  "d_sub_class (blank r) = d_sub_class r" "d_table_id (blank r) = d_table_id r"
  "d_cols (blank r) = map blank_col (d_cols r)"
  by (simp_all add: blank_def)

lemma blank_col_fields [simp]:
  "c_frame (blank_col c) = c_frame c" "c_id (blank_col c) = c_id c"
  "c_cell_id (blank_col c) = c_cell_id c" "c_cell_class (blank_col c) = c_cell_class c"
  by (simp_all add: blank_col_def)

lemma blank_frames: "map blank t' = map blank t \<Longrightarrow> map d_frame t' = map d_frame t"
proof -
  assume "map blank t' = map blank t"
  then have "map d_frame (map blank t') = map d_frame (map blank t)" by simp
  then show ?thesis by (simp add: comp_def)
qed

lemma html_table_empty: "html_table t (Descriptors []) = Inr ([], 0)"
  by (simp add: html_table_def)

lemma redisplay_empty:
  "inspector s = Some [] \<Longrightarrow> redisplay_dataframes (redisplay_columns s) = s"
  by (simp add: redisplay_dataframes_def redisplay_columns_def rows_def Let_def)

lemma elements_pipe:
  "r \<in> set t \<Longrightarrow> (d_pipe_id r, Some (d_pipe_class r), cell_outputs (d_pipe r)) \<in> set (elements t)"
  by (auto simp: elements_def df_elements_def)

lemma elements_sub:
  "r \<in> set t \<Longrightarrow> (d_sub_id r, Some (d_sub_class r), cols_outputs (d_cols r)) \<in> set (elements t)"
  by (auto simp: elements_def df_elements_def)

lemma elements_col:
  "r \<in> set t \<Longrightarrow> c \<in> set (d_cols r) \<Longrightarrow>
   (c_cell_id c, Some (c_cell_class c), cell_outputs (c_cell c)) \<in> set (elements t)"
  by (auto simp: elements_def df_elements_def col_elements_def)

lemma attr_class_distinct:
  "distinct (map fst (elements t)) \<Longrightarrow> (i, Some cl, n) \<in> set (elements t) \<Longrightarrow> attr_class t i = Some cl"
  by (simp add: attr_class_def)

lemma attr_class_new:
  "i \<notin> fst ` set (elements t) \<Longrightarrow> attr_class t i = None"
proof -
  assume "i \<notin> fst ` set (elements t)"
  then have "map_of (elements t) i = None" by (simp add: map_of_eq_None_iff)
  then show ?thesis by (simp add: attr_class_def)
qed

lemma rendered_col:
  assumes "map blank_col cs' = map blank_col (map (render_col t f) cols)" and "c' \<in> set cs'"
  shows "\<exists>col\<in>set cols. c_cell_id c' = colId col @ ''_row'' \<and> c_id c' = colId col \<and> c_frame c' = f
           \<and> c_cell_class c' = (case attr_class t (colId col @ ''_row'') of None \<Rightarrow> [''hidden''] | Some cl \<Rightarrow> cl)"
proof -
  from assms(2) have "blank_col c' \<in> set (map blank_col cs')" by simp
  with assms(1) obtain col where col: "col \<in> set cols" and e: "blank_col c' = blank_col (render_col t f col)"
    by auto
  have "c_cell_id (blank_col c') = colId col @ ''_row''" "c_id (blank_col c') = colId col"
    "c_frame (blank_col c') = f"
    "c_cell_class (blank_col c') = (case attr_class t (colId col @ ''_row'') of None \<Rightarrow> [''hidden''] | Some cl \<Rightarrow> cl)"
    unfolding e by (simp_all add: render_col_def)
  with col show ?thesis by auto
qed

lemma rendered_row:
  assumes "map blank t' = map blank (map (render_df t) D)" and "r' \<in> set t'"
  shows "\<exists>d\<in>set D. d_frame r' = dfId d \<and> d_pipe_id r' = dfId d @ ''_row'' \<and> d_sub_id r' = ''table_'' @ dfId d
           \<and> d_pipe_class r' = (case attr_class t (dfId d @ ''_row'') of
                                   None \<Rightarrow> [''pipeline_widget'', ''hidden''] | Some cl \<Rightarrow> cl)
           \<and> d_sub_class r' = (case attr_class t (''table_'' @ dfId d) of None \<Rightarrow> [''hidden''] | Some cl \<Rightarrow> cl)
           \<and> map blank_col (d_cols r') = map blank_col (map (render_col t (dfId d)) (dfCols d))"
proof -
  from assms(2) have "blank r' \<in> set (map blank t')" by simp
  with assms(1) obtain d where d: "d \<in> set D" and e: "blank r' = blank (render_df t d)"
    by auto
  have "d_frame (blank r') = dfId d" "d_pipe_id (blank r') = dfId d @ ''_row''"
    "d_sub_id (blank r') = ''table_'' @ dfId d"
    "d_pipe_class (blank r') = (case attr_class t (dfId d @ ''_row'') of
                                   None \<Rightarrow> [''pipeline_widget'', ''hidden''] | Some cl \<Rightarrow> cl)"
    "d_sub_class (blank r') = (case attr_class t (''table_'' @ dfId d) of None \<Rightarrow> [''hidden''] | Some cl \<Rightarrow> cl)"
    "d_cols (blank r') = map blank_col (map (render_col t (dfId d)) (dfCols d))"
    unfolding e by (simp_all add: render_df_def)
  with d show ?thesis by auto
qed

lemma open_cols_blank:
  "map blank_col cs' = map blank_col cs \<Longrightarrow>
   map (\<lambda>c. (c_frame c, c_id c)) (filter open_column cs')
     = map (\<lambda>c. (c_frame c, c_id c)) (filter open_column cs)"
proof (induction cs' arbitrary: cs)
  case Nil
  then show ?case by simp
next
  case (Cons c' cs')
  then obtain c cs0 where t: "cs = c # cs0" and b: "blank_col c' = blank_col c"
    and m: "map blank_col cs' = map blank_col cs0"
    by (cases cs) auto
  from b have "c_cell_class (blank_col c') = c_cell_class (blank_col c)"
    "c_frame (blank_col c') = c_frame (blank_col c)" "c_id (blank_col c') = c_id (blank_col c)"
    by simp_all
  then have "c_cell_class c' = c_cell_class c" "c_frame c' = c_frame c" "c_id c' = c_id c"
    by simp_all
  then show ?case
    using Cons.IH [OF m] by (simp add: t open_column_def)
qed

lemma blank_concat_cols:
  "map blank_col (concat (map d_cols t)) = concat (map d_cols (map blank t))"
  by (simp add: map_concat comp_def)

lemma open_columns_blank:
  "map blank t' = map blank t \<Longrightarrow> open_columns t' = open_columns t"
  unfolding open_columns_def
  by (rule open_cols_blank) (simp only: blank_concat_cols)

lemma enumerate_member: "x \<in> set xs \<Longrightarrow> \<exists>k. (k, x) \<in> set (enumerate n xs)"
proof -
  assume "x \<in> set xs"
  then obtain i where "i < length xs" "xs ! i = x" by (auto simp: in_set_conv_nth)
  then have "(n + i, x) \<in> set (enumerate n xs)"
    by (simp add: in_set_enumerate_eq)
  then show ?thesis ..
qed

lemma open_dataframes_member:
  "r \<in> set t \<Longrightarrow> ''hidden'' \<notin> set (d_pipe_class r) \<Longrightarrow> d_frame r \<in> set (open_dataframes t)"
  by (auto simp: open_dataframes_def open_dataframe_def)

lemma open_columns_member:
  "r \<in> set t \<Longrightarrow> c \<in> set (d_cols r) \<Longrightarrow> ''hidden'' \<notin> set (c_cell_class c) \<Longrightarrow>
   (c_frame c, c_id c) \<in> set (open_columns t)"
  by (auto simp: open_columns_def open_column_def)


lemma kept_classes:
  assumes b: "map blank t' = map blank (map (render_df t) D)"
    and u: "distinct (map fst (elements t))" and r': "r' \<in> set t'"
  shows "d_pipe_id r' = d_frame r' @ ''_row'' \<and> d_sub_id r' = ''table_'' @ d_frame r' \<and>
        (\<forall>r\<in>set t.
           (d_pipe_id r = d_pipe_id r' \<longrightarrow> d_pipe_class r' = d_pipe_class r) \<and>
           (d_sub_id r = d_sub_id r' \<longrightarrow> d_sub_class r' = d_sub_class r)) \<and>
        (d_pipe_id r' \<notin> fst ` set (elements t) \<longrightarrow> d_pipe_class r' = [''pipeline_widget'', ''hidden'']) \<and>
        (d_sub_id r' \<notin> fst ` set (elements t) \<longrightarrow> d_sub_class r' = [''hidden'']) \<and>
        (\<forall>c'\<in>set (d_cols r').
           (\<forall>r\<in>set t. \<forall>c\<in>set (d_cols r).
              c_cell_id c = c_cell_id c' \<longrightarrow> c_cell_class c' = c_cell_class c) \<and>
           (c_cell_id c' \<notin> fst ` set (elements t) \<longrightarrow> c_cell_class c' = [''hidden'']))"
proof -
  from rendered_row [OF b r'] obtain d where "d \<in> set D" and
    dd: "d_frame r' = dfId d \<and> d_pipe_id r' = dfId d @ ''_row'' \<and> d_sub_id r' = ''table_'' @ dfId d
         \<and> d_pipe_class r' = (case attr_class t (dfId d @ ''_row'') of
                                 None \<Rightarrow> [''pipeline_widget'', ''hidden''] | Some cl \<Rightarrow> cl)
         \<and> d_sub_class r' = (case attr_class t (''table_'' @ dfId d) of None \<Rightarrow> [''hidden''] | Some cl \<Rightarrow> cl)
         \<and> map blank_col (d_cols r') = map blank_col (map (render_col t (dfId d)) (dfCols d))"
    ..
  from dd have
    d: "d_frame r' = dfId d" "d_pipe_id r' = dfId d @ ''_row''" "d_sub_id r' = ''table_'' @ dfId d"
    and pc0: "d_pipe_class r' = (case attr_class t (dfId d @ ''_row'') of
                                 None \<Rightarrow> [''pipeline_widget'', ''hidden''] | Some cl \<Rightarrow> cl)"
    and sc0: "d_sub_class r' = (case attr_class t (''table_'' @ dfId d) of None \<Rightarrow> [''hidden''] | Some cl \<Rightarrow> cl)"
    and cs: "map blank_col (d_cols r') = map blank_col (map (render_col t (dfId d)) (dfCols d))"
    by simp_all
  have pc: "d_pipe_class r' = (case attr_class t (d_pipe_id r') of
                                 None \<Rightarrow> [''pipeline_widget'', ''hidden''] | Some cl \<Rightarrow> cl)"
    using pc0 d(2) by simp
  have sc: "d_sub_class r' = (case attr_class t (d_sub_id r') of None \<Rightarrow> [''hidden''] | Some cl \<Rightarrow> cl)"
    using sc0 d(3) by simp
  have 1: "d_pipe_class r' = d_pipe_class r" if "r \<in> set t" "d_pipe_id r = d_pipe_id r'" for r
    using attr_class_distinct [OF u elements_pipe [OF that(1)]] that(2) pc by simp
  have 2: "d_sub_class r' = d_sub_class r" if "r \<in> set t" "d_sub_id r = d_sub_id r'" for r
    using attr_class_distinct [OF u elements_sub [OF that(1)]] that(2) sc by simp
  have 3: "d_pipe_class r' = [''pipeline_widget'', ''hidden'']" if "d_pipe_id r' \<notin> fst ` set (elements t)"
    using attr_class_new [OF that] pc by simp
  have 4: "d_sub_class r' = [''hidden'']" if "d_sub_id r' \<notin> fst ` set (elements t)"
    using attr_class_new [OF that] sc by simp
  have 5: "(\<forall>r\<in>set t. \<forall>c\<in>set (d_cols r).
            c_cell_id c = c_cell_id c' \<longrightarrow> c_cell_class c' = c_cell_class c) \<and>
         (c_cell_id c' \<notin> fst ` set (elements t) \<longrightarrow> c_cell_class c' = [''hidden''])"
    if c': "c' \<in> set (d_cols r')" for c'
  proof -
    from rendered_col [OF cs c'] obtain col where "col \<in> set (dfCols d)" and
      "c_cell_id c' = colId col @ ''_row'' \<and> c_id c' = colId col \<and> c_frame c' = dfId d
         \<and> c_cell_class c' = (case attr_class t (colId col @ ''_row'') of None \<Rightarrow> [''hidden''] | Some cl \<Rightarrow> cl)"
      ..
    then have
      cc: "c_cell_class c' = (case attr_class t (c_cell_id c') of None \<Rightarrow> [''hidden''] | Some cl \<Rightarrow> cl)"
      by simp
    have "c_cell_class c' = c_cell_class c"
      if "r \<in> set t" "c \<in> set (d_cols r)" "c_cell_id c = c_cell_id c'" for r c
      using attr_class_distinct [OF u elements_col [OF that(1) that(2)]] that(3) cc by simp
    moreover have "c_cell_class c' = [''hidden'']" if "c_cell_id c' \<notin> fst ` set (elements t)"
      using attr_class_new [OF that] cc by simp
    ultimately show ?thesis by blast
  qed
  from d(1) d(2) d(3) have "d_pipe_id r' = d_frame r' @ ''_row''" "d_sub_id r' = ''table_'' @ d_frame r'"
    by simp_all
  with 1 2 3 4 5 show ?thesis by blast
qed

lemma find_output_id_outputs:
  "find_output t k = (case map_of (id_outputs (elements t)) k of None \<Rightarrow> 0 | Some n \<Rightarrow> n)"
proof -
  have "id_outputs (elements t) = map (\<lambda>(i, v). (i, snd v)) (elements t)"
    by (simp add: id_outputs_def split_def)
  then have "map_of (id_outputs (elements t)) k = map_option snd (map_of (elements t) k)"
    by (simp add: map_of_map)
  then show ?thesis
    by (simp add: find_output_def split: option.splits)
qed

lemma id_outputs_append [simp]: "id_outputs (xs @ ys) = id_outputs xs @ id_outputs ys"
  by (simp add: id_outputs_def)

lemma id_outputs_concat: "id_outputs (concat xss) = concat (map id_outputs xss)"
  by (induction xss) (simp_all add: id_outputs_def)

lemma id_outputs_elements:
  "id_outputs (elements t) = concat (map (id_outputs \<circ> df_elements) t)"
  by (simp add: elements_def id_outputs_concat)

lemma update_same_image:
  "i < length xs \<Longrightarrow> f y = f (xs ! i) \<Longrightarrow> map f (xs[i := y]) = map f xs"
  by (simp add: map_update list_update_same_conv)

lemma id_outputs_update:
  assumes "i < length t" and "id_outputs (df_elements r') = id_outputs (df_elements (t ! i))"
  shows "id_outputs (elements (t[i := r'])) = id_outputs (elements t)"
  using update_same_image [of i t "id_outputs \<circ> df_elements" r'] assms
  by (simp add: id_outputs_elements)

lemma find_output_update:
  assumes "i < length t" and "id_outputs (df_elements r') = id_outputs (df_elements (t ! i))"
  shows "find_output (t[i := r']) k = find_output t k"
  by (simp add: find_output_id_outputs id_outputs_update [OF assms])

lemma id_outputs_toggle_df:
  "id_outputs (df_elements (r\<lparr>d_pipe_class := a, d_sub_class := b, d_anchor := c\<rparr>))
     = id_outputs (df_elements r)"
  by (simp add: df_elements_def id_outputs_def)

lemma id_outputs_toggle_col:
  assumes "j < length (d_cols r)"
  shows "id_outputs (df_elements (r\<lparr>d_cols := (d_cols r)[j := (d_cols r ! j)\<lparr>c_cell_class := a, c_anchor := b\<rparr>]\<rparr>))
     = id_outputs (df_elements r)"
proof -
  let ?c' = "(d_cols r ! j)\<lparr>c_cell_class := a, c_anchor := b\<rparr>"
  have 1: "map (\<lambda>c. cell_outputs (c_cell c)) ((d_cols r)[j := ?c']) = map (\<lambda>c. cell_outputs (c_cell c)) (d_cols r)"
    using assms by (simp add: update_same_image)
  have 2: "map (id_outputs \<circ> col_elements) ((d_cols r)[j := ?c']) = map (id_outputs \<circ> col_elements) (d_cols r)"
    using assms by (simp add: update_same_image col_elements_def id_outputs_def)
  have "id_outputs (concat (map col_elements cs)) = concat (map (id_outputs \<circ> col_elements) cs)" for cs
    by (simp add: id_outputs_concat)
  with 1 2 show ?thesis
    by (simp add: df_elements_def cols_outputs_def) (simp add: id_outputs_def)
qed


lemma click_toggleDataframe_requests:
  assumes t: "inspector s = Some t" and w: "wrapper s = Some True" and i: "i < length t"
  shows "find_output t (d_frame (t ! i) @ ''_widget'') = 0 \<longrightarrow>
           kernel_log (click_toggleDataframe i s)
             = kernel_log s @ [PipelineWidget (d_frame (t ! i)) (next_holder s)]"
    and "find_output t (d_frame (t ! i) @ ''_widget'') \<noteq> 0 \<longrightarrow>
           kernel_log (click_toggleDataframe i s) = kernel_log s
           \<and> find_output (rows (click_toggleDataframe i s)) (d_frame (t ! i) @ ''_widget'')
               = find_output t (d_frame (t ! i) @ ''_widget'')"
proof -
  let ?r = "t ! i"
  let ?r' = "?r\<lparr>d_pipe_class := toggleClass ''hidden'' (d_pipe_class ?r),
                 d_sub_class := toggleClass ''hidden'' (d_sub_class ?r),
                 d_anchor := toggle_arrow (d_anchor ?r)\<rparr>"
  let ?s1 = "s\<lparr>inspector := Some (t[i := ?r'])\<rparr>"
  have c: "click_toggleDataframe i s = display_pipeline_widget (d_frame ?r) ?s1"
    using t i by (simp add: click_toggleDataframe_def Let_def)
  have r1: "rows ?s1 = t[i := ?r']" by (simp add: rows_def)
  have f: "find_output (t[i := ?r']) k = find_output t k" for k
    by (rule find_output_update [OF i]) (rule id_outputs_toggle_df)
  show "find_output t (d_frame (t ! i) @ ''_widget'') = 0 \<longrightarrow>
           kernel_log (click_toggleDataframe i s)
             = kernel_log s @ [PipelineWidget (d_frame (t ! i)) (next_holder s)]"
    using w by (simp add: c display_pipeline_widget_def r1 f)
  show "find_output t (d_frame (t ! i) @ ''_widget'') \<noteq> 0 \<longrightarrow>
           kernel_log (click_toggleDataframe i s) = kernel_log s
           \<and> find_output (rows (click_toggleDataframe i s)) (d_frame (t ! i) @ ''_widget'')
               = find_output t (d_frame (t ! i) @ ''_widget'')"
    using w by (simp add: c display_pipeline_widget_def r1 f)
qed

lemma click_toggleColumn_requests:
  assumes t: "inspector s = Some t" and w: "wrapper s = Some True" and i: "i < length t"
    and j: "j < length (d_cols (t ! i))"
  defines "c \<equiv> d_cols (t ! i) ! j"
  shows "find_output t (c_id c @ ''_widget'') = 0 \<longrightarrow>
           kernel_log (click_toggleColumn i j s)
             = kernel_log s @ [ColumnWidget (c_frame c) (c_id c) (next_holder s)]"
    and "find_output t (c_id c @ ''_widget'') \<noteq> 0 \<longrightarrow>
           kernel_log (click_toggleColumn i j s) = kernel_log s
           \<and> find_output (rows (click_toggleColumn i j s)) (c_id c @ ''_widget'')
               = find_output t (c_id c @ ''_widget'')"
proof -
  let ?r = "t ! i"
  let ?c' = "c\<lparr>c_cell_class := toggleClass ''hidden'' (c_cell_class c),
                c_anchor := toggle_arrow (c_anchor c)\<rparr>"
  let ?r' = "?r\<lparr>d_cols := (d_cols ?r)[j := ?c']\<rparr>"
  let ?s1 = "s\<lparr>inspector := Some (t[i := ?r'])\<rparr>"
  have c: "click_toggleColumn i j s = display_column_widget (c_frame c) (c_id c) ?s1"
    using t i j by (simp add: click_toggleColumn_def Let_def c_def)
  have r1: "rows ?s1 = t[i := ?r']" by (simp add: rows_def)
  have f: "find_output (t[i := ?r']) k = find_output t k" for k
    unfolding c_def by (rule find_output_update [OF i]) (rule id_outputs_toggle_col [OF j])
  show "find_output t (c_id c @ ''_widget'') = 0 \<longrightarrow>
           kernel_log (click_toggleColumn i j s)
             = kernel_log s @ [ColumnWidget (c_frame c) (c_id c) (next_holder s)]"
    using w by (simp add: c display_column_widget_def r1 f)
  show "find_output t (c_id c @ ''_widget'') \<noteq> 0 \<longrightarrow>
           kernel_log (click_toggleColumn i j s) = kernel_log s
           \<and> find_output (rows (click_toggleColumn i j s)) (c_id c @ ''_widget'')
               = find_output t (c_id c @ ''_widget'')"
    using w by (simp add: c display_column_widget_def r1 f)
qed

lemma set_html_cols_miss:
  "k \<notin> fst ` set (concat (map col_elements cs)) \<Longrightarrow> set_html_cols k c cs = None"
  by (induction cs) (auto simp: col_elements_def)

lemma set_html_rows_miss:
  "k \<notin> fst ` set (df_elements r) \<Longrightarrow> set_html_rows k c (r # rs) = map_option ((#) r) (set_html_rows k c rs)"
proof -
  assume a: "k \<notin> fst ` set (df_elements r)"
  then have "k \<notin> fst ` set (concat (map col_elements (d_cols r)))"
    by (auto simp: df_elements_def)
  then have "set_html_cols k c (d_cols r) = None" by (rule set_html_cols_miss)
  moreover from a have "d_pipe_id r \<noteq> k" "k \<notin> fst ` set (cell_elements (d_pipe r))"
    "d_sub_id r \<noteq> k" "d_table_id r \<noteq> k"
    by (auto simp: df_elements_def)
  ultimately show ?thesis by simp
qed

lemma elements_Cons: "elements (r # rs) = df_elements r @ elements rs"
  by (simp add: elements_def)

lemma set_html_rows_pipe:
  assumes "i < length t" and "d_pipe_id (t ! i) = k" and "distinct (map fst (elements t))"
  shows "set_html_rows k c t = Some (t[i := (t ! i)\<lparr>d_pipe := c\<rparr>])"
  using assms
proof (induction t arbitrary: i)
  case Nil
  then show ?case by simp
next
  case (Cons r rs)
  show ?case
  proof (cases i)
    case 0
    with Cons.prems show ?thesis by simp
  next
    case (Suc j)
    with Cons.prems have j: "j < length rs" and kj: "d_pipe_id (rs ! j) = k" by simp_all
    from Cons.prems(3) have d: "distinct (map fst (elements rs))"
      and dis: "fst ` set (df_elements r) \<inter> fst ` set (elements rs) = {}"
      by (simp_all add: elements_Cons)
    from j have "rs ! j \<in> set rs" by simp
    from elements_pipe [OF this] kj have "k \<in> fst ` set (elements rs)" by force
    with dis have "k \<notin> fst ` set (df_elements r)" by blast
    from set_html_rows_miss [OF this] Cons.IH [OF j kj d] show ?thesis
      by (simp add: Suc)
  qed
qed


lemma set_html_cols_cell:
  assumes "j < length cs" and "c_cell_id (cs ! j) = k"
    and "distinct (map fst (concat (map col_elements cs)))"
  shows "set_html_cols k c cs = Some (cs[j := (cs ! j)\<lparr>c_cell := c\<rparr>])"
  using assms
proof (induction cs arbitrary: j)
  case Nil
  then show ?case by simp
next
  case (Cons x xs)
  show ?case
  proof (cases j)
    case 0
    with Cons.prems show ?thesis by (auto simp: col_elements_def)
  next
    case (Suc n)
    with Cons.prems have n: "n < length xs" and kn: "c_cell_id (xs ! n) = k" by simp_all
    from Cons.prems(3) have d: "distinct (map fst (concat (map col_elements xs)))"
      and dis: "fst ` set (col_elements x) \<inter> fst ` set (concat (map col_elements xs)) = {}"
      by simp_all
    from n have "xs ! n \<in> set xs" by simp
    then have "k \<in> fst ` set (concat (map col_elements xs))"
      using kn by (force simp: col_elements_def)
    with dis have "k \<notin> fst ` set (col_elements x)" by blast
    then have "c_id x \<noteq> k" "c_cell_id x \<noteq> k" "k \<notin> fst ` set (cell_elements (c_cell x))"
      by (auto simp: col_elements_def)
    with Cons.IH [OF n kn d] show ?thesis
      by (simp add: Suc)
  qed
qed

lemma set_html_rows_cell:
  assumes "i < length t" and "j < length (d_cols (t ! i))"
    and "c_cell_id (d_cols (t ! i) ! j) = k" and "distinct (map fst (elements t))"
  shows "set_html_rows k c t
           = Some (t[i := (t ! i)\<lparr>d_cols := (d_cols (t ! i))[j := (d_cols (t ! i) ! j)\<lparr>c_cell := c\<rparr>]\<rparr>])"
  using assms
proof (induction t arbitrary: i)
  case Nil
  then show ?case by simp
next
  case (Cons r rs)
  show ?case
  proof (cases i)
    case 0
    with Cons.prems have j: "j < length (d_cols r)" and kj: "c_cell_id (d_cols r ! j) = k" by simp_all
    from Cons.prems(4) have dr: "distinct (map fst (df_elements r))"
      by (simp add: elements_Cons)
    then have dc: "distinct (map fst (concat (map col_elements (d_cols r))))"
      and dis: "fst ` set ([(d_pipe_id r, Some (d_pipe_class r), cell_outputs (d_pipe r))]
                  @ cell_elements (d_pipe r)
                  @ [(d_sub_id r, Some (d_sub_class r), cols_outputs (d_cols r)),
                     (d_table_id r, Some [''tablesorter''], cols_outputs (d_cols r))])
                \<inter> fst ` set (concat (map col_elements (d_cols r))) = {}"
      by (auto simp: df_elements_def)
    from j have "d_cols r ! j \<in> set (d_cols r)" by simp
    then have "k \<in> fst ` set (concat (map col_elements (d_cols r)))"
      using kj by (force simp: col_elements_def)
    with dis have "k \<notin> fst ` set ([(d_pipe_id r, Some (d_pipe_class r), cell_outputs (d_pipe r))]
                  @ cell_elements (d_pipe r)
                  @ [(d_sub_id r, Some (d_sub_class r), cols_outputs (d_cols r)),
                     (d_table_id r, Some [''tablesorter''], cols_outputs (d_cols r))])"
      by blast
    then have "d_pipe_id r \<noteq> k" "k \<notin> fst ` set (cell_elements (d_pipe r))"
      "d_sub_id r \<noteq> k" "d_table_id r \<noteq> k"
      by auto
    with set_html_cols_cell [OF j kj dc] show ?thesis
      by (simp add: 0)
  next
    case (Suc n)
    with Cons.prems have n: "n < length rs" and jn: "j < length (d_cols (rs ! n))"
      and kn: "c_cell_id (d_cols (rs ! n) ! j) = k" by simp_all
    from Cons.prems(4) have d: "distinct (map fst (elements rs))"
      and dis: "fst ` set (df_elements r) \<inter> fst ` set (elements rs) = {}"
      by (simp_all add: elements_Cons)
    from n jn have "rs ! n \<in> set rs" "d_cols (rs ! n) ! j \<in> set (d_cols (rs ! n))" by simp_all
    from elements_col [OF this] kn have "k \<in> fst ` set (elements rs)" by force
    with dis have "k \<notin> fst ` set (df_elements r)" by blast
    from set_html_rows_miss [OF this] Cons.IH [OF n jn kn d] show ?thesis
      by (simp add: Suc)
  qed
qed

lemma inject_cell_ids: "map fst (cell_elements (inject_cell h p c)) = map fst (cell_elements c)"
  by (cases c) auto

lemma inject_ids: "map fst (df_elements (inject h p r)) = map fst (df_elements r)"
  by (simp add: df_elements_def inject_def inject_cell_ids col_elements_def inject_col_def
      map_concat comp_def)

lemma inject_elements_ids: "map fst (elements (map (inject h p) t)) = map fst (elements t)"
  by (simp add: elements_def map_concat comp_def inject_ids)

lemma find_output_distinct:
  "distinct (map fst (elements t)) \<Longrightarrow> (k, cl, n) \<in> set (elements t) \<Longrightarrow> find_output t k = n"
  by (simp add: find_output_def)


lemma ids_of_id_outputs: "map fst (id_outputs es) = map fst es"
  by (simp add: id_outputs_def split_def)

lemma ids_update:
  assumes "i < length t" and "id_outputs (df_elements r') = id_outputs (df_elements (t ! i))"
  shows "map fst (elements (t[i := r'])) = map fst (elements t)"
proof -
  have "map fst (id_outputs (elements (t[i := r']))) = map fst (id_outputs (elements t))"
    by (simp only: id_outputs_update [OF assms])
  then show ?thesis by (simp only: ids_of_id_outputs)
qed

lemma elements_holder:
  assumes "r \<in> set t" and "d_pipe r = Holder h w outs"
  shows "(w, if outs = [] then None else Some [''output_wrapper''], length outs) \<in> set (elements t)"
proof -
  let ?e = "(w, if outs = [] then None else Some [''output_wrapper''], length outs)"
  have "?e \<in> set (cell_elements (d_pipe r))" using assms(2) by simp
  then have "?e \<in> set (df_elements r)" by (simp add: df_elements_def)
  with assms(1) show ?thesis unfolding elements_def by auto
qed

lemma elements_col_holder:
  assumes "r \<in> set t" and "c \<in> set (d_cols r)" and "c_cell c = Holder h w outs"
  shows "(w, if outs = [] then None else Some [''output_wrapper''], length outs) \<in> set (elements t)"
proof -
  let ?e = "(w, if outs = [] then None else Some [''output_wrapper''], length outs)"
  have "?e \<in> set (cell_elements (c_cell c))" using assms(3) by simp
  then have "?e \<in> set (col_elements c)" by (simp add: col_elements_def)
  with assms(2) have "?e \<in> set (concat (map col_elements (d_cols r)))" by auto
  then have "?e \<in> set (df_elements r)" by (simp add: df_elements_def)
  with assms(1) show ?thesis unfolding elements_def by auto
qed

lemma click_toggleDataframe_eq:
  assumes t: "inspector s = Some t" and w: "wrapper s = Some True" and i: "i < length t"
  defines "r' \<equiv> (t ! i)\<lparr>d_pipe_class := toggleClass ''hidden'' (d_pipe_class (t ! i)),
                          d_sub_class := toggleClass ''hidden'' (d_sub_class (t ! i)),
                          d_anchor := toggle_arrow (d_anchor (t ! i))\<rparr>"
  shows "click_toggleDataframe i s =
     (if find_output t (d_frame (t ! i) @ ''_widget'') = 0
      then s\<lparr>inspector := Some (set_html (d_frame (t ! i) @ ''_row'')
                                (Holder (next_holder s) (d_frame (t ! i) @ ''_widget'') []) (t[i := r'])),
             next_holder := Suc (next_holder s),
             kernel_log := kernel_log s @ [PipelineWidget (d_frame (t ! i)) (next_holder s)]\<rparr>
      else s\<lparr>inspector := Some (t[i := r'])\<rparr>)"
proof -
  have f: "find_output (t[i := r']) k = find_output t k" for k
    unfolding r'_def by (rule find_output_update [OF i]) (rule id_outputs_toggle_df)
  show ?thesis
    using t w i
    by (simp add: click_toggleDataframe_def Let_def display_pipeline_widget_def rows_def f
        r'_def [symmetric])
qed

lemma click_toggleColumn_eq:
  assumes t: "inspector s = Some t" and w: "wrapper s = Some True" and i: "i < length t"
    and j: "j < length (d_cols (t ! i))"
  defines "c \<equiv> d_cols (t ! i) ! j"
  defines "r' \<equiv> (t ! i)\<lparr>d_cols := (d_cols (t ! i))[j :=
                     c\<lparr>c_cell_class := toggleClass ''hidden'' (c_cell_class c),
                       c_anchor := toggle_arrow (c_anchor c)\<rparr>]\<rparr>"
  shows "click_toggleColumn i j s =
     (if find_output t (c_id c @ ''_widget'') = 0
      then s\<lparr>inspector := Some (set_html (c_id c @ ''_row'')
                                (Holder (next_holder s) (c_id c @ ''_widget'') []) (t[i := r'])),
             next_holder := Suc (next_holder s),
             kernel_log := kernel_log s @ [ColumnWidget (c_frame c) (c_id c) (next_holder s)]\<rparr>
      else s\<lparr>inspector := Some (t[i := r'])\<rparr>)"
proof -
  have f: "find_output (t[i := r']) k = find_output t k" for k
    unfolding r'_def c_def by (rule find_output_update [OF i]) (rule id_outputs_toggle_col [OF j])
  show ?thesis
    using t w i j
    by (simp add: click_toggleColumn_def Let_def display_column_widget_def rows_def f
        r'_def [symmetric] c_def [symmetric])
qed


lemma display_widgets_data:
  "msg_type m = ''display_data'' \<Longrightarrow> inspector s = Some t \<Longrightarrow>
   display_widgets m h s = s\<lparr>inspector := Some (map (inject h (payload m)) t)\<rparr>"
  by (simp add: display_widgets_def Let_def)

lemma rendered_reply_stops_requests_df:
  assumes t: "inspector s = Some t" and w: "wrapper s = Some True" and i: "i < length t"
    and u: "distinct (map fst (elements t))"
    and pid: "d_pipe_id (t ! i) = d_frame (t ! i) @ ''_row''"
    and f0: "find_output t (d_frame (t ! i) @ ''_widget'') = 0"
    and dt: "msg_type m = ''display_data''"
    and u1: "distinct (map fst (elements (rows (click_toggleDataframe i s))))"
  shows "kernel_log (click_toggleDataframe i (click_toggleDataframe i
            (display_widgets m (next_holder s) (click_toggleDataframe i s))))
         = kernel_log s @ [PipelineWidget (d_frame (t ! i)) (next_holder s)]"
proof -
  let ?f = "d_frame (t ! i)" and ?h = "next_holder s"
  let ?w = "?f @ ''_widget''"
  let ?cell = "Holder ?h ?w []"
  let ?r' = "(t ! i)\<lparr>d_pipe_class := toggleClass ''hidden'' (d_pipe_class (t ! i)),
                       d_sub_class := toggleClass ''hidden'' (d_sub_class (t ! i)),
                       d_anchor := toggle_arrow (d_anchor (t ! i))\<rparr>"
  let ?t0 = "t[i := ?r']"
  let ?t1 = "?t0[i := (?t0 ! i)\<lparr>d_pipe := ?cell\<rparr>]"
  let ?s1 = "click_toggleDataframe i s"
  have ids0: "map fst (elements ?t0) = map fst (elements t)"
    by (rule ids_update [OF i]) (rule id_outputs_toggle_df)
  have i0: "i < length ?t0" using i by simp
  have p0: "d_pipe_id (?t0 ! i) = ?f @ ''_row''" using i pid by simp
  have sh: "set_html (?f @ ''_row'') ?cell ?t0 = ?t1"
    using set_html_rows_pipe [OF i0 p0, of ?cell] u ids0 by (simp add: set_html_def)
  have s1: "?s1 = s\<lparr>inspector := Some ?t1, next_holder := Suc ?h,
                     kernel_log := kernel_log s @ [PipelineWidget ?f ?h]\<rparr>"
    using click_toggleDataframe_eq [OF t w i] f0 sh by simp
  let ?t2 = "map (inject ?h (payload m)) ?t1"
  let ?s2 = "display_widgets m ?h ?s1"
  have s2: "?s2 = ?s1\<lparr>inspector := Some ?t2\<rparr>"
    by (rule display_widgets_data [OF dt]) (simp add: s1)
  have i2: "i < length ?t2" using i by simp
  have r2: "d_frame (?t2 ! i) = ?f" "d_pipe (?t2 ! i) = Holder ?h ?w [payload m]"
    using i by (simp_all add: inject_def)
  have u2: "distinct (map fst (elements ?t2))"
    using u1 by (simp add: inject_elements_ids s1 rows_def)
  have "?t2 ! i \<in> set ?t2" using i2 by (rule nth_mem)
  from elements_holder [OF this r2(2)]
  have "(?w, Some [''output_wrapper''], 1) \<in> set (elements ?t2)" by simp
  from find_output_distinct [OF u2 this] have l2: "find_output ?t2 ?w = 1" .
  have in2: "inspector ?s2 = Some ?t2" and w2: "wrapper ?s2 = Some True"
    and k2: "kernel_log ?s2 = kernel_log s @ [PipelineWidget ?f ?h]"
    using w unfolding s2 by (simp_all add: s1)
  let ?r2' = "(?t2 ! i)\<lparr>d_pipe_class := toggleClass ''hidden'' (d_pipe_class (?t2 ! i)),
                         d_sub_class := toggleClass ''hidden'' (d_sub_class (?t2 ! i)),
                         d_anchor := toggle_arrow (d_anchor (?t2 ! i))\<rparr>"
  let ?t3 = "?t2[i := ?r2']"
  let ?s3 = "click_toggleDataframe i ?s2"
  have s3: "?s3 = ?s2\<lparr>inspector := Some ?t3\<rparr>"
    using click_toggleDataframe_eq [OF in2 w2 i2] l2 r2(1) by simp
  have i3: "i < length ?t3" using i by simp
  have r3: "d_frame (?t3 ! i) = ?f" using i2 r2(1) by simp
  have "find_output ?t3 ?w = find_output ?t2 ?w"
    by (rule find_output_update [OF i2]) (rule id_outputs_toggle_df)
  with l2 have l3: "find_output ?t3 ?w \<noteq> 0" by simp
  have in3: "inspector ?s3 = Some ?t3" and w3: "wrapper ?s3 = Some True"
    and k3: "kernel_log ?s3 = kernel_log s @ [PipelineWidget ?f ?h]"
    using w2 k2 unfolding s3 by simp_all
  have "kernel_log (click_toggleDataframe i ?s3) = kernel_log ?s3"
    using click_toggleDataframe_eq [OF in3 w3 i3] l3 r3 by simp
  with k3 show ?thesis by simp
qed


lemma rendered_reply_stops_requests_col:
  assumes t: "inspector s = Some t" and w: "wrapper s = Some True" and i: "i < length t"
    and j: "j < length (d_cols (t ! i))"
    and u: "distinct (map fst (elements t))"
    and cid: "c_cell_id (d_cols (t ! i) ! j) = c_id (d_cols (t ! i) ! j) @ ''_row''"
    and f0: "find_output t (c_id (d_cols (t ! i) ! j) @ ''_widget'') = 0"
    and dt: "msg_type m = ''display_data''"
    and u1: "distinct (map fst (elements (rows (click_toggleColumn i j s))))"
  shows "kernel_log (click_toggleColumn i j (click_toggleColumn i j
            (display_widgets m (next_holder s) (click_toggleColumn i j s))))
         = kernel_log s @ [ColumnWidget (c_frame (d_cols (t ! i) ! j)) (c_id (d_cols (t ! i) ! j))
                             (next_holder s)]"
proof -
  let ?c = "d_cols (t ! i) ! j"
  let ?f = "c_frame ?c" and ?k = "c_id ?c" and ?h = "next_holder s"
  let ?w = "?k @ ''_widget''"
  let ?cell = "Holder ?h ?w []"
  let ?r' = "(t ! i)\<lparr>d_cols := (d_cols (t ! i))[j :=
               ?c\<lparr>c_cell_class := toggleClass ''hidden'' (c_cell_class ?c),
                  c_anchor := toggle_arrow (c_anchor ?c)\<rparr>]\<rparr>"
  let ?t0 = "t[i := ?r']"
  let ?t1 = "?t0[i := (?t0 ! i)\<lparr>d_cols := (d_cols (?t0 ! i))[j := (d_cols (?t0 ! i) ! j)\<lparr>c_cell := ?cell\<rparr>]\<rparr>]"
  let ?s1 = "click_toggleColumn i j s"
  have ids0: "map fst (elements ?t0) = map fst (elements t)"
    by (rule ids_update [OF i]) (rule id_outputs_toggle_col [OF j])
  have i0: "i < length ?t0" using i by simp
  have j0: "j < length (d_cols (?t0 ! i))" using i j by simp
  have p0: "c_cell_id (d_cols (?t0 ! i) ! j) = ?k @ ''_row''" using i j cid by simp
  have sh: "set_html (?k @ ''_row'') ?cell ?t0 = ?t1"
    using set_html_rows_cell [OF i0 j0 p0, of ?cell] u ids0 by (simp add: set_html_def)
  have s1: "?s1 = s\<lparr>inspector := Some ?t1, next_holder := Suc ?h,
                     kernel_log := kernel_log s @ [ColumnWidget ?f ?k ?h]\<rparr>"
    using click_toggleColumn_eq [OF t w i j] f0 sh by simp
  let ?t2 = "map (inject ?h (payload m)) ?t1"
  let ?s2 = "display_widgets m ?h ?s1"
  have s2: "?s2 = ?s1\<lparr>inspector := Some ?t2\<rparr>"
    by (rule display_widgets_data [OF dt]) (simp add: s1)
  have i2: "i < length ?t2" using i by simp
  have j2: "j < length (d_cols (?t2 ! i))" using i j by (simp add: inject_def)
  have r2: "c_frame (d_cols (?t2 ! i) ! j) = ?f" "c_id (d_cols (?t2 ! i) ! j) = ?k"
    "c_cell (d_cols (?t2 ! i) ! j) = Holder ?h ?w [payload m]"
    using i j by (simp_all add: inject_def inject_col_def)
  have u2: "distinct (map fst (elements ?t2))"
    using u1 by (simp add: inject_elements_ids s1 rows_def)
  have "?t2 ! i \<in> set ?t2" using i2 by (rule nth_mem)
  moreover have "d_cols (?t2 ! i) ! j \<in> set (d_cols (?t2 ! i))" using j2 by (rule nth_mem)
  ultimately have "(?w, Some [''output_wrapper''], 1) \<in> set (elements ?t2)"
    using elements_col_holder [OF _ _ r2(3)] by simp
  from find_output_distinct [OF u2 this] have l2: "find_output ?t2 ?w = 1" .
  have in2: "inspector ?s2 = Some ?t2" and w2: "wrapper ?s2 = Some True"
    and k2: "kernel_log ?s2 = kernel_log s @ [ColumnWidget ?f ?k ?h]"
    using w unfolding s2 by (simp_all add: s1)
  let ?c2 = "d_cols (?t2 ! i) ! j"
  let ?r2' = "(?t2 ! i)\<lparr>d_cols := (d_cols (?t2 ! i))[j :=
               ?c2\<lparr>c_cell_class := toggleClass ''hidden'' (c_cell_class ?c2),
                   c_anchor := toggle_arrow (c_anchor ?c2)\<rparr>]\<rparr>"
  let ?t3 = "?t2[i := ?r2']"
  let ?s3 = "click_toggleColumn i j ?s2"
  have s3: "?s3 = ?s2\<lparr>inspector := Some ?t3\<rparr>"
    using click_toggleColumn_eq [OF in2 w2 i2 j2] l2 r2(2) by simp
  have i3: "i < length ?t3" using i by simp
  have j3: "j < length (d_cols (?t3 ! i))" using i2 j2 by simp
  have r3: "c_id (d_cols (?t3 ! i) ! j) = ?k" using i2 j2 r2(2) by simp
  have "find_output ?t3 ?w = find_output ?t2 ?w"
    by (rule find_output_update [OF i2]) (rule id_outputs_toggle_col [OF j2])
  with l2 have l3: "find_output ?t3 ?w \<noteq> 0" by simp
  have in3: "inspector ?s3 = Some ?t3" and w3: "wrapper ?s3 = Some True"
    and k3: "kernel_log ?s3 = kernel_log s @ [ColumnWidget ?f ?k ?h]"
    using w2 k2 unfolding s3 by simp_all
  have "kernel_log (click_toggleColumn i j ?s3) = kernel_log ?s3"
    using click_toggleColumn_eq [OF in3 w3 i3 j3] l3 r3 by simp
  with k3 show ?thesis by simp
qed

text \<open>
  A descriptor list whose derived ids are pairwise distinct is drawn as a table whose
  ids are unique.
\<close>

lemma rendered_ids:
  "map fst (elements (map (render_df t) D)) = concat (map descriptor_ids D)"
proof -
  have c: "map fst (col_elements (render_col t f c)) = [colId c, colId c @ ''_row'']" for f c
    by (simp add: col_elements_def render_col_def)
  have "map fst (df_elements (render_df t d)) = descriptor_ids d" for d
    by (simp add: df_elements_def render_df_def descriptor_ids_def map_concat comp_def c)
  then show ?thesis
    by (simp add: elements_def map_concat comp_def)
qed

lemma html_table_unique_ids:
  "distinct (concat (map descriptor_ids D)) \<Longrightarrow> html_table t (Descriptors D) = Inr (t', n) \<Longrightarrow>
   distinct (map fst (elements t'))"
  by (auto simp: html_table_def rendered_ids)

lemma render_cols_error: "render_cols t f cs = Inl e \<Longrightarrow> e = TypeError"
  by (induction t f cs rule: render_cols.induct) (auto split: sum.splits)

lemma render_cols_returns:
  "(\<exists>rs. render_cols t f cs = Inr rs) \<longleftrightarrow> list_all well_formed_col cs"
  by (induction t f cs rule: render_cols.induct) (auto split: sum.splits)

lemma render_entry_error: "render_entry t e = Inl x \<Longrightarrow> x = TypeError"
  by (cases e) (auto split: sum.splits dest: render_cols_error)

lemma render_entry_returns: "(\<exists>r. render_entry t e = Inr r) \<longleftrightarrow> well_formed e"
proof (cases e)
  case (Frame i n sh cn cols)
  then show ?thesis
    using render_cols_returns [of t i cols] by (auto split: sum.splits)
qed simp_all

lemma render_entries_error: "render_entries t es = Inl x \<Longrightarrow> x = TypeError"
  by (induction es arbitrary: x) (auto split: sum.splits dest: render_entry_error)

lemma render_entries_returns:
  "(\<exists>rs. render_entries t es = Inr rs) \<longleftrightarrow> list_all well_formed es"
proof (induction es)
  case Nil
  then show ?case by simp
next
  case (Cons e es)
  then show ?case
    using render_entry_returns [of t e] by (auto split: sum.splits)
qed

lemma render_entries_raises:
  "render_entries t es = Inl TypeError \<longleftrightarrow> \<not> list_all well_formed es"
proof
  assume "render_entries t es = Inl TypeError"
  then have "\<not> (\<exists>rs. render_entries t es = Inr rs)" by simp
  then show "\<not> list_all well_formed es" using render_entries_returns [of t es] by blast
next
  assume "\<not> list_all well_formed es"
  then have "\<not> (\<exists>rs. render_entries t es = Inr rs)"
    using render_entries_returns [of t es] by blast
  then obtain x where "render_entries t es = Inl x" by (cases "render_entries t es") auto
  then show "render_entries t es = Inl TypeError" using render_entries_error by blast
qed

lemma render_cols_columns:
  "render_cols t f (map Column cs) = Inr (map (render_col t f) cs)"
  by (induction cs) simp_all

lemma render_entries_descriptors:
  "render_entries t (entries_of D) = Inr (map (render_df t) D)"
  by (induction D) (simp_all add: entries_of_def render_cols_columns render_df_def)

lemma html_table_entries_of:
  "html_table t (Entries (entries_of D)) = html_table t (Descriptors D)"
  by (simp add: html_table_def render_entries_descriptors) (simp add: entries_of_def)

lemma html_table_outcome:
  "html_table t jt = Inl SyntaxError \<longleftrightarrow> jt = Unparseable \<or> jt = Undefined"
  "html_table t jt = Inl TypeError \<longleftrightarrow> jt = Json_null \<or> (\<exists>es. jt = Entries es \<and> \<not> list_all well_formed es)"
proof -
  show "html_table t jt = Inl SyntaxError \<longleftrightarrow> jt = Unparseable \<or> jt = Undefined"
    by (cases jt) (auto simp: html_table_def split: sum.splits dest: render_entries_error)
  show "html_table t jt = Inl TypeError \<longleftrightarrow> jt = Json_null \<or> (\<exists>es. jt = Entries es \<and> \<not> list_all well_formed es)"
  proof (cases jt)
    case (Entries es)
    then show ?thesis
      using render_entries_raises [of t es] by (auto simp: html_table_def split: sum.splits)
  qed (simp_all add: html_table_def)
qed

lemma callback_stream:
  assumes "msg_type m = ''stream''" and "content_text m \<noteq> Undefined"
  shows "code_exec_callback m s = Inl e \<longleftrightarrow> html_table (rows s) (content_text m) = Inl e"
  using assms by (auto simp: code_exec_callback_def split: sum.splits)

lemma callback_other:
  "msg_type m \<noteq> ''stream'' \<or> content_text m = Undefined \<Longrightarrow> code_exec_callback m s \<noteq> Inl e"
  by (auto simp: code_exec_callback_def)

lemma drawn_col_blank [simp]: "drawn_col (blank_col c) = drawn_col c"
  by (simp add: drawn_col_def blank_col_def)

lemma drawn_blank [simp]: "drawn (blank r) = drawn r"
  by (simp add: drawn_def blank_def comp_def)

lemma drawn_render_col [simp]: "drawn_col (render_col t f c) = described_col c"
  by (simp add: drawn_col_def described_col_def render_col_def)

lemma drawn_render_df [simp]: "drawn (render_df t d) = described d"
  by (simp add: drawn_def described_def render_df_def comp_def)

lemma drawn_rows:
  assumes "map blank t' = map blank (map (render_df t) D)"
  shows "map drawn t' = map described D"
proof -
  have "map drawn t' = map drawn (map blank t')" by (simp add: comp_def)
  also have "\<dots> = map drawn (map blank (map (render_df t) D))" by (simp only: assms)
  also have "\<dots> = map described D" by (simp add: comp_def)
  finally show ?thesis .
qed

lemma drawn_ids:
  assumes b: "map blank t' = map blank (map (render_df t) D)" and r': "r' \<in> set t'"
  shows "d_pipe_id r' = d_frame r' @ ''_row'' \<and> d_sub_id r' = ''table_'' @ d_frame r'
         \<and> (\<forall>c'\<in>set (d_cols r'). c_cell_id c' = c_id c' @ ''_row'' \<and> c_frame c' = d_frame r')"
proof -
  from rendered_row [OF b r'] obtain d where "d \<in> set D" and
    dd: "d_frame r' = dfId d \<and> d_pipe_id r' = dfId d @ ''_row'' \<and> d_sub_id r' = ''table_'' @ dfId d
         \<and> d_pipe_class r' = (case attr_class t (dfId d @ ''_row'') of
                                 None \<Rightarrow> [''pipeline_widget'', ''hidden''] | Some cl \<Rightarrow> cl)
         \<and> d_sub_class r' = (case attr_class t (''table_'' @ dfId d) of None \<Rightarrow> [''hidden''] | Some cl \<Rightarrow> cl)
         \<and> map blank_col (d_cols r') = map blank_col (map (render_col t (dfId d)) (dfCols d))"
    ..
  from dd have d: "d_frame r' = dfId d" "d_pipe_id r' = dfId d @ ''_row''" "d_sub_id r' = ''table_'' @ dfId d"
    and cs: "map blank_col (d_cols r') = map blank_col (map (render_col t (dfId d)) (dfCols d))"
    by simp_all
  have "c_cell_id c' = c_id c' @ ''_row'' \<and> c_frame c' = d_frame r'" if c': "c' \<in> set (d_cols r')" for c'
  proof -
    from rendered_col [OF cs c'] obtain col where "col \<in> set (dfCols d)" and
      "c_cell_id c' = colId col @ ''_row'' \<and> c_id c' = colId col \<and> c_frame c' = dfId d
         \<and> c_cell_class c' = (case attr_class t (colId col @ ''_row'') of None \<Rightarrow> [''hidden''] | Some cl \<Rightarrow> cl)"
      ..
    with d(1) show ?thesis by simp
  qed
  with d show ?thesis by simp
qed

section \<open>Properties\<close>

text \<open>
  C5. A redraw with the empty descriptor list leaves a table without rows and a badge
  that is hidden (or no badge at all), whatever was expanded or shown before; no request
  goes to the kernel.
\<close>

theorem empty_redraw:
  assumes "msg_type m = ''stream''" and "content_text m = Descriptors []" and "wrapper s \<noteq> None"
  shows "\<exists>s'. code_exec_callback m s = Inr s' \<and> inspector s' = Some [] \<and> n_dataframes s' = 0
           \<and> (case iosb s' of None \<Rightarrow> True | Some b \<Rightarrow> badge_hidden b)
           \<and> kernel_log s' = kernel_log s"
proof -
  let ?s1 = "update_badge (s\<lparr>inspector := Some [], n_dataframes := 0\<rparr>)"
  have i: "inspector ?s1 = Some []" by simp
  have "code_exec_callback m s = Inr (redisplay_dataframes (redisplay_columns ?s1))"
    using assms by (auto simp add: code_exec_callback_def html_table_empty)
  then have "code_exec_callback m s = Inr ?s1"
    using redisplay_empty [OF i] by simp
  moreover have "case iosb ?s1 of None \<Rightarrow> True | Some b \<Rightarrow> badge_hidden b"
    by (simp add: update_badge_def split: option.splits)
  ultimately show ?thesis
    by simp
qed

theorem empty_redraw_witness:
  "\<exists>s'. code_exec_callback (stream_msg (Descriptors [])) panel_visible = Inr s' \<and> inspector s' = Some []
      \<and> n_dataframes s' = 0 \<and> (case iosb s' of None \<Rightarrow> True | Some b \<Rightarrow> badge_hidden b)
      \<and> kernel_log s' = kernel_log panel_visible"
  using empty_redraw [of "stream_msg (Descriptors [])" panel_visible]
  by (simp add: stream_msg_def panel_visible_def panel_hidden_def)

text \<open>
  C8. While the panel is not displayed, \<open>display_column_widget\<close> and
  \<open>display_pipeline_widget\<close> change nothing: no call of the kernel, no placeholder touched.
\<close>

theorem loaders_idle_when_hidden:
  "wrapper s \<noteq> Some True \<Longrightarrow>
   display_column_widget f c s = s \<and> display_pipeline_widget f s = s"
  by (simp add: display_column_widget_def display_pipeline_widget_def)

theorem loaders_idle_when_hidden_witness:
  "wrapper panel_hidden \<noteq> Some True \<and> display_column_widget ''1'' ''2'' panel_hidden = panel_hidden
     \<and> display_pipeline_widget ''1'' panel_hidden = panel_hidden"
  using loaders_idle_when_hidden [of panel_hidden "''1''" "''2''"]
  by (simp add: panel_hidden_def)

text \<open>
  C9. The handler of a widget reply writes into the placeholder only for a message of
  type \<open>display_data\<close>; for a message of type \<open>error\<close> it logs \<open>evalue\<close> and \<open>traceback\<close>
  and leaves the document alone; any other message, \<open>stream\<close> included, changes nothing.
\<close>

theorem display_widgets_by_type:
  "(msg_type m = ''display_data'' \<longrightarrow>
      display_widgets m h s = s\<lparr>inspector := map_option (map (inject h (payload m))) (inspector s)\<rparr>)
   \<and> (msg_type m = ''error'' \<longrightarrow>
      display_widgets m h s = s\<lparr>console := console s @ [evalue m, traceback m]\<rparr>)
   \<and> (msg_type m \<noteq> ''display_data'' \<and> msg_type m \<noteq> ''error'' \<longrightarrow> display_widgets m h s = s)"
  by (simp add: display_widgets_def Let_def)

theorem display_widgets_by_type_witness:
  "map d_pipe (rows (display_widgets (widget_msg ''display_data'') 0 panel_loading))
     = [Holder 0 ''1_widget'' [''widget'']]
   \<and> display_widgets (widget_msg ''error'') 0 panel_loading
     = panel_loading\<lparr>console := [''NameError'', ''Traceback'']\<rparr>
   \<and> display_widgets (widget_msg ''stream'') 0 panel_loading = panel_loading"
proof -
  have t: "msg_type (widget_msg ''display_data'') = ''display_data''"
    "msg_type (widget_msg ''error'') = ''error''"
    "msg_type (widget_msg ''stream'') \<noteq> ''display_data'' \<and> msg_type (widget_msg ''stream'') \<noteq> ''error''"
    by (simp_all add: widget_msg_def)
  have p: "map d_pipe (rows (panel_loading\<lparr>inspector :=
             map_option (map (inject 0 (payload (widget_msg ''display_data'')))) (inspector panel_loading)\<rparr>))
           = [Holder 0 ''1_widget'' [''widget'']]"
    by code_simp
  have c: "console panel_loading = []" by code_simp
  show ?thesis
    using display_widgets_by_type [of "widget_msg ''display_data''" 0 panel_loading]
      display_widgets_by_type [of "widget_msg ''error''" 0 panel_loading]
      display_widgets_by_type [of "widget_msg ''stream''" 0 panel_loading] t
    by (simp add: p c) (simp add: widget_msg_def)
qed

text \<open>
  C10. A toggle of the panel that completes, in either direction, stores the new
  visibility in the notebook metadata, marks the notebook dirty and sends one
  introspection command; hiding the panel does so as well.
\<close>

theorem toggle_persists_and_polls:
  assumes "wrapper s = Some v" and "metadata s = Some md"
  shows "\<exists>s'. toggle_datacleaner s = Inr s' \<and> wrapper s' = Some (\<not> v)
           \<and> metadata s' = Some (md\<lparr>window_display := Some (\<not> v)\<rparr>) \<and> dirty s'
           \<and> kernel_log s' = kernel_log s @ [VarRefreshCmd]"
  using assms by (simp add: toggle_datacleaner_def data_cleaner_def varRefresh_def)

theorem toggle_persists_and_polls_witness:
  "(\<exists>s'. toggle_datacleaner panel_visible = Inr s' \<and> wrapper s' = Some False
           \<and> metadata s' = Some \<lparr>window_display = Some False\<rparr> \<and> dirty s'
           \<and> kernel_log s' = [VarRefreshCmd])
   \<and> (\<exists>s'. toggle_datacleaner panel_hidden = Inr s' \<and> wrapper s' = Some True
           \<and> metadata s' = Some \<lparr>window_display = Some True\<rparr> \<and> dirty s'
           \<and> kernel_log s' = [VarRefreshCmd])"
  using toggle_persists_and_polls [of panel_visible True "\<lparr>window_display = Some False\<rparr>"]
    toggle_persists_and_polls [of panel_hidden False "\<lparr>window_display = Some False\<rparr>"]
  by (simp add: panel_visible_def panel_hidden_def)

text \<open>
  C6. Revealing the hidden panel sends exactly one introspection command, and a reply
  that carries a descriptor list is drawn once, with one row group per descriptor; the
  redraw sends only widget requests, no further introspection command.
\<close>

theorem reveal_polls_once:
  assumes "wrapper s = Some False" and "metadata s = Some md"
  shows "\<exists>s1. toggle_datacleaner s = Inr s1 \<and> wrapper s1 = Some True
           \<and> kernel_log s1 = kernel_log s @ [VarRefreshCmd]
           \<and> (\<forall>m D. msg_type m = ''stream'' \<and> content_text m = Descriptors D \<longrightarrow>
                (\<exists>s2 new. code_exec_callback m s1 = Inr s2 \<and> map d_frame (rows s2) = map dfId D
                   \<and> kernel_log s2 = kernel_log s1 @ new \<and> VarRefreshCmd \<notin> set new))"
proof -
  obtain s1 where
    t: "toggle_datacleaner s = Inr s1" and w: "wrapper s1 = Some True"
    and k: "kernel_log s1 = kernel_log s @ [VarRefreshCmd]"
    using assms by (simp add: toggle_datacleaner_def data_cleaner_def varRefresh_def)
  have "\<exists>s2 new. code_exec_callback m s1 = Inr s2 \<and> map d_frame (rows s2) = map dfId D
           \<and> kernel_log s2 = kernel_log s1 @ new \<and> VarRefreshCmd \<notin> set new"
    if m: "msg_type m = ''stream''" "content_text m = Descriptors D" for m D
  proof -
    from redraw [OF m w] obtain s2 where
      c: "code_exec_callback m s1 = Inr s2"
      and b: "map blank (rows s2) = map blank (map (render_df (rows s1)) D)"
      and l: "kernel_log s2 = kernel_log s1 @
                (map (\<lambda>(k, f, c). ColumnWidget f c k)
                   (enumerate (next_holder s1) (open_columns (map (render_df (rows s1)) D)))
                 @ map (\<lambda>(k, f). PipelineWidget f k)
                    (enumerate (next_holder s1 + length (open_columns (map (render_df (rows s1)) D)))
                       (open_dataframes (map (render_df (rows s1)) D))))"
      by auto
    have "map d_frame (rows s2) = map dfId D"
      using blank_frames [OF b] by (simp add: comp_def render_df_def)
    with c l show ?thesis by auto
  qed
  with t w k show ?thesis by blast
qed

theorem reveal_polls_once_witness:
  "\<exists>s1. toggle_datacleaner panel_hidden = Inr s1 \<and> wrapper s1 = Some True
      \<and> kernel_log s1 = [VarRefreshCmd]
      \<and> (\<exists>s2 new. code_exec_callback (stream_msg (Descriptors [frame1])) s1 = Inr s2
            \<and> map d_frame (rows s2) = [''1'']
            \<and> kernel_log s2 = kernel_log s1 @ new \<and> VarRefreshCmd \<notin> set new)"
proof -
  have h: "wrapper panel_hidden = Some False" "metadata panel_hidden = Some \<lparr>window_display = Some False\<rparr>"
    by (simp_all add: panel_hidden_def)
  have m: "msg_type (stream_msg (Descriptors [frame1])) = ''stream''
           \<and> content_text (stream_msg (Descriptors [frame1])) = Descriptors [frame1]"
    by (simp add: stream_msg_def)
  from reveal_polls_once [OF h] obtain s1 where
    a: "toggle_datacleaner panel_hidden = Inr s1" "wrapper s1 = Some True"
      "kernel_log s1 = kernel_log panel_hidden @ [VarRefreshCmd]"
    and r: "\<forall>m D. msg_type m = ''stream'' \<and> content_text m = Descriptors D \<longrightarrow>
              (\<exists>s2 new. code_exec_callback m s1 = Inr s2 \<and> map d_frame (rows s2) = map dfId D
                 \<and> kernel_log s2 = kernel_log s1 @ new \<and> VarRefreshCmd \<notin> set new)"
    by blast
  from r m have "\<exists>s2 new. code_exec_callback (stream_msg (Descriptors [frame1])) s1 = Inr s2
      \<and> map d_frame (rows s2) = map dfId [frame1]
      \<and> kernel_log s2 = kernel_log s1 @ new \<and> VarRefreshCmd \<notin> set new"
    by blast
  with a show ?thesis
    by (simp add: panel_hidden_def frame1_def)
qed




text \<open>
  C7, as the code has it. Nothing in the extension catches an exception, and the
  handler of the poll replies raises on two kinds of stream reply: \<open>SyntaxError\<close> exactly
  when \<open>JSON.parse\<close> rejects the text, \<open>TypeError\<close> exactly when the text parses to \<open>null\<close>
  or to an array with an entry or a column that is not read to the end. It returns
  normally on every other reply: one that is no stream reply, one without text, one with
  an array of descriptors. The handler of the widget replies returns normally on every
  reply.
\<close>

theorem callback_outcome:
  "(code_exec_callback m s = Inl SyntaxError
      \<longleftrightarrow> msg_type m = ''stream'' \<and> content_text m = Unparseable)
   \<and> (code_exec_callback m s = Inl TypeError
      \<longleftrightarrow> msg_type m = ''stream''
          \<and> (content_text m = Json_null
               \<or> (\<exists>es. content_text m = Entries es \<and> \<not> list_all well_formed es)))
   \<and> ((\<exists>s'. code_exec_callback m s = Inr s')
      \<longleftrightarrow> msg_type m \<noteq> ''stream'' \<or> content_text m = Undefined
          \<or> (\<exists>D. content_text m = Descriptors D)
          \<or> (\<exists>es. content_text m = Entries es \<and> list_all well_formed es))
   \<and> output_callback h m s = Inr (display_widgets m h s)"
proof -
  have 1: "code_exec_callback m s = Inl SyntaxError
      \<longleftrightarrow> msg_type m = ''stream'' \<and> content_text m = Unparseable"
  proof (cases "msg_type m = ''stream'' \<and> content_text m \<noteq> Undefined")
    case True
    then show ?thesis
      using callback_stream [of m s SyntaxError] html_table_outcome(1) [of "rows s" "content_text m"]
      by simp
  next
    case False
    then show ?thesis
      using callback_other [of m s SyntaxError] by auto
  qed
  have 2: "code_exec_callback m s = Inl TypeError
      \<longleftrightarrow> msg_type m = ''stream''
          \<and> (content_text m = Json_null
               \<or> (\<exists>es. content_text m = Entries es \<and> \<not> list_all well_formed es))"
  proof (cases "msg_type m = ''stream'' \<and> content_text m \<noteq> Undefined")
    case True
    then show ?thesis
      using callback_stream [of m s TypeError] html_table_outcome(2) [of "rows s" "content_text m"]
      by simp
  next
    case False
    then show ?thesis
      using callback_other [of m s TypeError] by auto
  qed
  have "(\<exists>s'. code_exec_callback m s = Inr s')
      \<longleftrightarrow> code_exec_callback m s \<noteq> Inl SyntaxError \<and> code_exec_callback m s \<noteq> Inl TypeError"
  proof (cases "code_exec_callback m s")
    case (Inl e)
    then show ?thesis by (cases e) simp_all
  next
    case (Inr s')
    then show ?thesis by simp
  qed
  then have 3: "(\<exists>s'. code_exec_callback m s = Inr s')
      \<longleftrightarrow> msg_type m \<noteq> ''stream'' \<or> content_text m = Undefined
          \<or> (\<exists>D. content_text m = Descriptors D)
          \<or> (\<exists>es. content_text m = Entries es \<and> list_all well_formed es)"
    unfolding 1 2 by (cases "content_text m") auto
  have 4: "output_callback h m s = Inr (display_widgets m h s)"
    by (simp add: output_callback_def)
  from 1 2 3 4 show ?thesis by blast
qed

theorem callback_outcome_witness:
  "(\<exists>s'. code_exec_callback (stream_msg (Descriptors [frame1])) panel_visible = Inr s')
   \<and> (\<exists>s'. code_exec_callback (widget_msg ''error'') panel_visible = Inr s')
   \<and> code_exec_callback (stream_msg Json_null) panel_visible = Inl TypeError
   \<and> code_exec_callback (stream_msg (Entries [No_dfCols])) panel_visible = Inl TypeError
   \<and> code_exec_callback (stream_msg (Entries [Frame ''1'' ''df'' ''3x2'' ''a'' [No_description]]))
        panel_visible = Inl TypeError
   \<and> output_callback 0 (widget_msg ''error'') panel_loading
        = Inr (panel_loading\<lparr>console := [''NameError'', ''Traceback'']\<rparr>)"
proof -
  have 1: "\<exists>s'. code_exec_callback (stream_msg (Descriptors [frame1])) panel_visible = Inr s'"
    using callback_outcome [where m = "stream_msg (Descriptors [frame1])" and s = panel_visible and h = 0]
    by (simp add: stream_msg_def)
  have 2: "\<exists>s'. code_exec_callback (widget_msg ''error'') panel_visible = Inr s'"
    using callback_outcome [where m = "widget_msg ''error''" and s = panel_visible and h = 0]
    by (simp add: widget_msg_def)
  have 3: "code_exec_callback (stream_msg Json_null) panel_visible = Inl TypeError"
    using callback_outcome [where m = "stream_msg Json_null" and s = panel_visible and h = 0]
    by (simp add: stream_msg_def)
  have 4: "code_exec_callback (stream_msg (Entries [No_dfCols])) panel_visible = Inl TypeError"
    using callback_outcome [where m = "stream_msg (Entries [No_dfCols])" and s = panel_visible and h = 0]
    by (simp add: stream_msg_def)
  have 5: "code_exec_callback (stream_msg (Entries [Frame ''1'' ''df'' ''3x2'' ''a'' [No_description]]))
        panel_visible = Inl TypeError"
    using callback_outcome [where m = "stream_msg (Entries [Frame ''1'' ''df'' ''3x2'' ''a'' [No_description]])"
        and s = panel_visible and h = 0]
    by (simp add: stream_msg_def)
  have c: "display_widgets (widget_msg ''error'') 0 panel_loading
             = panel_loading\<lparr>console := [''NameError'', ''Traceback'']\<rparr>"
    by code_simp
  have 6: "output_callback 0 (widget_msg ''error'') panel_loading
        = Inr (panel_loading\<lparr>console := [''NameError'', ''Traceback'']\<rparr>)"
    using callback_outcome [where m = "widget_msg ''error''" and s = panel_loading and h = 0]
    by (simp only: c)
  from 1 2 3 4 5 6 show ?thesis by blast
qed

text \<open>The claim C7 as stated fails on a reply whose text is no JSON.\<close>

theorem uncaught_exception_counterexample:
  "code_exec_callback (stream_msg Unparseable) panel_visible = Inl SyntaxError"
  by code_simp

text \<open>
  C1. A redraw keeps the expansion state by id. The new table shows the descriptors of
  the reply, one row group per descriptor with one row per column, in order, each cell
  under the id derived from the id of its dataframe or column. In a document whose ids
  are unique, every row group takes the classes of its pipeline cell and of the cell
  around its column table from the cells with the same ids in the old table, so a
  dataframe that was expanded is drawn expanded again; likewise every column cell. An
  id that is new to the document is drawn collapsed.
\<close>

theorem expansion_preserved:
  assumes m: "msg_type m = ''stream''" "content_text m = Descriptors D" and w: "wrapper s = Some v"
    and u: "distinct (map fst (elements (rows s)))"
  shows "\<exists>s'. code_exec_callback m s = Inr s' \<and> map d_frame (rows s') = map dfId D \<and>
     map drawn (rows s') = map described D \<and>
     (\<forall>r'\<in>set (rows s').
        d_pipe_id r' = d_frame r' @ ''_row'' \<and> d_sub_id r' = ''table_'' @ d_frame r' \<and>
        (\<forall>r\<in>set (rows s).
           (d_pipe_id r = d_pipe_id r' \<longrightarrow> d_pipe_class r' = d_pipe_class r) \<and>
           (d_sub_id r = d_sub_id r' \<longrightarrow> d_sub_class r' = d_sub_class r)) \<and>
        (d_pipe_id r' \<notin> fst ` set (elements (rows s)) \<longrightarrow> d_pipe_class r' = [''pipeline_widget'', ''hidden'']) \<and>
        (d_sub_id r' \<notin> fst ` set (elements (rows s)) \<longrightarrow> d_sub_class r' = [''hidden'']) \<and>
        (\<forall>c'\<in>set (d_cols r').
           c_cell_id c' = c_id c' @ ''_row'' \<and> c_frame c' = d_frame r' \<and>
           (\<forall>r\<in>set (rows s). \<forall>c\<in>set (d_cols r).
              c_cell_id c = c_cell_id c' \<longrightarrow> c_cell_class c' = c_cell_class c) \<and>
           (c_cell_id c' \<notin> fst ` set (elements (rows s)) \<longrightarrow> c_cell_class c' = [''hidden''])))"
proof -
  from redraw [OF m w] obtain s' where
    c: "code_exec_callback m s = Inr s'"
    and b: "map blank (rows s') = map blank (map (render_df (rows s)) D)"
    by auto
  have f: "map d_frame (rows s') = map dfId D"
    using blank_frames [OF b] by (simp add: comp_def render_df_def)
  note g = drawn_rows [OF b]
  from kept_classes [OF b u] drawn_ids [OF b] c f g show ?thesis by blast
qed

theorem expansion_preserved_witness:
  "distinct (map fst (elements (rows panel_column_open)))
   \<and> map d_pipe_class (rows panel_column_open) = [[''pipeline_widget'']]
   \<and> map d_sub_class (rows panel_column_open) = [[]]
   \<and> map (\<lambda>r. map (\<lambda>c. (c_id c, c_cell_class c)) (d_cols r)) (rows panel_column_open) = [[(''2'', [])]]
   \<and> (\<exists>s'. code_exec_callback (stream_msg (Descriptors [frame3, frame1])) panel_column_open = Inr s'
         \<and> map drawn (rows s') = [described frame3, described frame1]
         \<and> (\<forall>r'\<in>set (rows s'). d_frame r' = ''1'' \<longrightarrow>
               d_pipe_class r' = [''pipeline_widget''] \<and> d_sub_class r' = []
               \<and> (\<forall>c'\<in>set (d_cols r'). c_id c' = ''2'' \<longrightarrow> c_cell_class c' = []))
         \<and> (\<forall>r'\<in>set (rows s'). d_frame r' = ''3'' \<longrightarrow>
               d_pipe_class r' = [''pipeline_widget'', ''hidden''] \<and> d_sub_class r' = [''hidden'']
               \<and> (\<forall>c'\<in>set (d_cols r'). c_id c' = ''4'' \<longrightarrow> c_cell_class c' = [''hidden''])))"
proof -
  let ?m = "stream_msg (Descriptors [frame3, frame1])"
  let ?s = panel_column_open
  have u: "distinct (map fst (elements (rows ?s)))" by code_simp
  have m: "msg_type ?m = ''stream''" "content_text ?m = Descriptors [frame3, frame1]"
    by (simp_all add: stream_msg_def)
  have w: "wrapper ?s = Some True" by code_simp
  have o: "map d_pipe_class (rows ?s) = [[''pipeline_widget'']]" "map d_sub_class (rows ?s) = [[]]"
    "map (\<lambda>r. map (\<lambda>c. (c_id c, c_cell_class c)) (d_cols r)) (rows ?s) = [[(''2'', [])]]"
    by code_simp+
  have r: "hd (rows ?s) \<in> set (rows ?s)" "d_pipe_id (hd (rows ?s)) = ''1_row''"
    "d_sub_id (hd (rows ?s)) = ''table_1''"
    "d_pipe_class (hd (rows ?s)) = [''pipeline_widget'']" "d_sub_class (hd (rows ?s)) = []"
    "hd (d_cols (hd (rows ?s))) \<in> set (d_cols (hd (rows ?s)))"
    "c_cell_id (hd (d_cols (hd (rows ?s)))) = ''2_row''"
    "c_cell_class (hd (d_cols (hd (rows ?s)))) = []"
    by code_simp+
  have n: "''3_row'' \<notin> fst ` set (elements (rows ?s))" "''table_3'' \<notin> fst ` set (elements (rows ?s))"
    "''4_row'' \<notin> fst ` set (elements (rows ?s))"
    by code_simp+
  from expansion_preserved [OF m w u] obtain s' where
    c: "code_exec_callback ?m ?s = Inr s'"
    and g: "map drawn (rows s') = map described [frame3, frame1]"
    and a: "\<forall>r'\<in>set (rows s').
        d_pipe_id r' = d_frame r' @ ''_row'' \<and> d_sub_id r' = ''table_'' @ d_frame r' \<and>
        (\<forall>r\<in>set (rows ?s).
           (d_pipe_id r = d_pipe_id r' \<longrightarrow> d_pipe_class r' = d_pipe_class r) \<and>
           (d_sub_id r = d_sub_id r' \<longrightarrow> d_sub_class r' = d_sub_class r)) \<and>
        (d_pipe_id r' \<notin> fst ` set (elements (rows ?s)) \<longrightarrow> d_pipe_class r' = [''pipeline_widget'', ''hidden'']) \<and>
        (d_sub_id r' \<notin> fst ` set (elements (rows ?s)) \<longrightarrow> d_sub_class r' = [''hidden'']) \<and>
        (\<forall>c'\<in>set (d_cols r').
           c_cell_id c' = c_id c' @ ''_row'' \<and> c_frame c' = d_frame r' \<and>
           (\<forall>r\<in>set (rows ?s). \<forall>c\<in>set (d_cols r).
              c_cell_id c = c_cell_id c' \<longrightarrow> c_cell_class c' = c_cell_class c) \<and>
           (c_cell_id c' \<notin> fst ` set (elements (rows ?s)) \<longrightarrow> c_cell_class c' = [''hidden'']))"
    by blast
  have 1: "d_pipe_class r' = [''pipeline_widget''] \<and> d_sub_class r' = []
           \<and> (\<forall>c'\<in>set (d_cols r'). c_id c' = ''2'' \<longrightarrow> c_cell_class c' = [])"
    if r': "r' \<in> set (rows s')" and f: "d_frame r' = ''1''" for r'
  proof -
    note a' = a [rule_format, OF r']
    have "d_pipe_class r' = [''pipeline_widget''] \<and> d_sub_class r' = []"
      using a' f r(1-5) by simp
    moreover have "c_cell_class c' = []" if "c' \<in> set (d_cols r')" "c_id c' = ''2''" for c'
    proof -
      from a' that(1) have i: "c_cell_id c' = c_id c' @ ''_row''"
        and k: "\<forall>r\<in>set (rows ?s). \<forall>c\<in>set (d_cols r).
              c_cell_id c = c_cell_id c' \<longrightarrow> c_cell_class c' = c_cell_class c"
        by blast+
      from i that(2) have "c_cell_id c' = ''2_row''" by simp
      with k r(1) r(6) r(7) r(8) show ?thesis by metis
    qed
    ultimately show ?thesis by blast
  qed
  have 3: "d_pipe_class r' = [''pipeline_widget'', ''hidden''] \<and> d_sub_class r' = [''hidden'']
           \<and> (\<forall>c'\<in>set (d_cols r'). c_id c' = ''4'' \<longrightarrow> c_cell_class c' = [''hidden''])"
    if r': "r' \<in> set (rows s')" and f: "d_frame r' = ''3''" for r'
  proof -
    note a' = a [rule_format, OF r']
    have "d_pipe_class r' = [''pipeline_widget'', ''hidden''] \<and> d_sub_class r' = [''hidden'']"
      using a' f n(1) n(2) by simp
    moreover have "c_cell_class c' = [''hidden'']" if "c' \<in> set (d_cols r')" "c_id c' = ''4''" for c'
    proof -
      from a' that(1) have i: "c_cell_id c' = c_id c' @ ''_row''"
        and k: "c_cell_id c' \<notin> fst ` set (elements (rows ?s)) \<longrightarrow> c_cell_class c' = [''hidden'']"
        by blast+
      from i that(2) have "c_cell_id c' = ''4_row''" by simp
      with k n(3) show ?thesis by simp
    qed
    ultimately show ?thesis by blast
  qed
  from g have g': "map drawn (rows s') = [described frame3, described frame1]" by simp
  have A: "\<forall>r'\<in>set (rows s'). d_frame r' = ''1'' \<longrightarrow>
               d_pipe_class r' = [''pipeline_widget''] \<and> d_sub_class r' = []
               \<and> (\<forall>c'\<in>set (d_cols r'). c_id c' = ''2'' \<longrightarrow> c_cell_class c' = [])"
  proof (intro ballI impI)
    fix r' assume "r' \<in> set (rows s')" "d_frame r' = ''1''"
    then show "d_pipe_class r' = [''pipeline_widget''] \<and> d_sub_class r' = []
               \<and> (\<forall>c'\<in>set (d_cols r'). c_id c' = ''2'' \<longrightarrow> c_cell_class c' = [])"
      by (rule 1)
  qed
  have B: "\<forall>r'\<in>set (rows s'). d_frame r' = ''3'' \<longrightarrow>
               d_pipe_class r' = [''pipeline_widget'', ''hidden''] \<and> d_sub_class r' = [''hidden'']
               \<and> (\<forall>c'\<in>set (d_cols r'). c_id c' = ''4'' \<longrightarrow> c_cell_class c' = [''hidden''])"
  proof (intro ballI impI)
    fix r' assume "r' \<in> set (rows s')" "d_frame r' = ''3''"
    then show "d_pipe_class r' = [''pipeline_widget'', ''hidden''] \<and> d_sub_class r' = [''hidden'']
               \<and> (\<forall>c'\<in>set (d_cols r'). c_id c' = ''4'' \<longrightarrow> c_cell_class c' = [''hidden''])"
      by (rule 3)
  qed
  have e: "\<exists>s'. code_exec_callback ?m ?s = Inr s'
         \<and> map drawn (rows s') = [described frame3, described frame1]
         \<and> (\<forall>r'\<in>set (rows s'). d_frame r' = ''1'' \<longrightarrow>
               d_pipe_class r' = [''pipeline_widget''] \<and> d_sub_class r' = []
               \<and> (\<forall>c'\<in>set (d_cols r'). c_id c' = ''2'' \<longrightarrow> c_cell_class c' = []))
         \<and> (\<forall>r'\<in>set (rows s'). d_frame r' = ''3'' \<longrightarrow>
               d_pipe_class r' = [''pipeline_widget'', ''hidden''] \<and> d_sub_class r' = [''hidden'']
               \<and> (\<forall>c'\<in>set (d_cols r'). c_id c' = ''4'' \<longrightarrow> c_cell_class c' = [''hidden'']))"
    by (rule exI [of _ s']) (intro conjI c g' A B)
  show ?thesis
    by (intro conjI u o e)
qed

text \<open>
  C3. A redraw resets what was loaded: the new table shows the descriptors of the reply
  and no cell of it holds a rendered output, so the next loader call for any row sends
  its request again. A dataframe row or column row that was open before the redraw, in a
  document whose ids are unique, is drawn open again, and when the panel is displayed
  the redraw itself sends the widget request for it; when the panel is hidden the redraw
  sends nothing.
\<close>

theorem redraw_reloads_open_widgets:
  assumes m: "msg_type m = ''stream''" "content_text m = Descriptors D" and w: "wrapper s = Some v"
    and u: "distinct (map fst (elements (rows s)))"
  shows "\<exists>s' new. code_exec_callback m s = Inr s' \<and> kernel_log s' = kernel_log s @ new
     \<and> map drawn (rows s') = map described D
     \<and> unloaded (rows s')
     \<and> (\<not> v \<longrightarrow> new = [])
     \<and> (v \<longrightarrow> (\<forall>f. kernel_log (display_pipeline_widget f s')
                         = kernel_log s' @ [PipelineWidget f (next_holder s')])
              \<and> (\<forall>f c. kernel_log (display_column_widget f c s')
                         = kernel_log s' @ [ColumnWidget f c (next_holder s')]))
     \<and> (\<forall>r'\<in>set (rows s').
          d_pipe_id r' = d_frame r' @ ''_row'' \<and>
          (\<forall>c'\<in>set (d_cols r'). c_cell_id c' = c_id c' @ ''_row'' \<and> c_frame c' = d_frame r') \<and>
          (\<forall>r\<in>set (rows s). d_pipe_id r = d_pipe_id r' \<and> ''hidden'' \<notin> set (d_pipe_class r) \<longrightarrow>
              ''hidden'' \<notin> set (d_pipe_class r') \<and> (v \<longrightarrow> (\<exists>h. PipelineWidget (d_frame r') h \<in> set new))) \<and>
          (\<forall>c'\<in>set (d_cols r'). \<forall>r\<in>set (rows s). \<forall>c\<in>set (d_cols r).
              c_cell_id c = c_cell_id c' \<and> ''hidden'' \<notin> set (c_cell_class c) \<longrightarrow>
              ''hidden'' \<notin> set (c_cell_class c')
              \<and> (v \<longrightarrow> (\<exists>h. ColumnWidget (c_frame c') (c_id c') h \<in> set new))))"
proof -
  let ?t = "map (render_df (rows s)) D"
  let ?A = "map (\<lambda>(k, f, c). ColumnWidget f c k) (enumerate (next_holder s) (open_columns ?t))"
  let ?B = "map (\<lambda>(k, f). PipelineWidget f k)
              (enumerate (next_holder s + length (open_columns ?t)) (open_dataframes ?t))"
  let ?new = "if v then ?A @ ?B else []"
  from redraw [OF m w] obtain s' where
    c: "code_exec_callback m s = Inr s'"
    and b: "map blank (rows s') = map blank ?t"
    and un: "unloaded (rows s')" and ws: "wrapper s' = Some v"
    and l: "kernel_log s' = kernel_log s @ ?new"
    by blast
  have rd: "ready s'" if v using that un ws by (simp add: ready_def)
  have od: "open_dataframes (rows s') = open_dataframes ?t" by (rule open_dataframes_blank [OF b])
  have oc: "open_columns (rows s') = open_columns ?t" by (rule open_columns_blank [OF b])
  have p: "''hidden'' \<notin> set (d_pipe_class r') \<and> (v \<longrightarrow> (\<exists>h. PipelineWidget (d_frame r') h \<in> set ?new))"
    if "r' \<in> set (rows s')" "r \<in> set (rows s)" "d_pipe_id r = d_pipe_id r'" "''hidden'' \<notin> set (d_pipe_class r)"
    for r' r
  proof -
    from kept_classes [OF b u that(1)] that(2) that(3) have "d_pipe_class r' = d_pipe_class r" by blast
    with that(4) have h: "''hidden'' \<notin> set (d_pipe_class r')" by simp
    from open_dataframes_member [OF that(1) h] od have "d_frame r' \<in> set (open_dataframes ?t)" by simp
    from enumerate_member [OF this] obtain k where
      "(k, d_frame r') \<in> set (enumerate (next_holder s + length (open_columns ?t)) (open_dataframes ?t))" ..
    then have "PipelineWidget (d_frame r') k \<in> set ?B" by force
    then have "PipelineWidget (d_frame r') k \<in> set (?A @ ?B)" by simp
    then have "v \<longrightarrow> (\<exists>h. PipelineWidget (d_frame r') h \<in> set ?new)"
      by (intro impI exI [of _ k]) simp
    with h show ?thesis by simp
  qed
  have q: "''hidden'' \<notin> set (c_cell_class c')
           \<and> (v \<longrightarrow> (\<exists>h. ColumnWidget (c_frame c') (c_id c') h \<in> set ?new))"
    if "r' \<in> set (rows s')" "c' \<in> set (d_cols r')" "r \<in> set (rows s)" "c \<in> set (d_cols r)"
      "c_cell_id c = c_cell_id c'" "''hidden'' \<notin> set (c_cell_class c)"
    for r' c' r c
  proof -
    from kept_classes [OF b u that(1)] that(2) that(3) that(4) that(5)
    have "c_cell_class c' = c_cell_class c" by blast
    with that(6) have h: "''hidden'' \<notin> set (c_cell_class c')" by simp
    from open_columns_member [OF that(1) that(2) h] oc
    have "(c_frame c', c_id c') \<in> set (open_columns ?t)" by simp
    from enumerate_member [OF this] obtain k where
      "(k, c_frame c', c_id c') \<in> set (enumerate (next_holder s) (open_columns ?t))" ..
    then have "ColumnWidget (c_frame c') (c_id c') k \<in> set ?A" by force
    then have "ColumnWidget (c_frame c') (c_id c') k \<in> set (?A @ ?B)" by simp
    then have "v \<longrightarrow> (\<exists>h. ColumnWidget (c_frame c') (c_id c') h \<in> set ?new)"
      by (intro impI exI [of _ k]) simp
    with h show ?thesis by simp
  qed
  have "kernel_log s' = kernel_log s @ ?new \<and> map drawn (rows s') = map described D
          \<and> unloaded (rows s') \<and> (\<not> v \<longrightarrow> ?new = [])"
    using l un drawn_rows [OF b] by simp
  moreover have "v \<longrightarrow> (\<forall>f. kernel_log (display_pipeline_widget f s')
                         = kernel_log s' @ [PipelineWidget f (next_holder s')])
              \<and> (\<forall>f c. kernel_log (display_column_widget f c s')
                         = kernel_log s' @ [ColumnWidget f c (next_holder s')])"
    using display_pipeline_widget_ready(2) [OF rd] display_column_widget_ready(2) [OF rd] by blast
  ultimately show ?thesis using c p q drawn_ids [OF b] by blast
qed

theorem redraw_reloads_open_widgets_witness:
  "find_output (rows panel_column_open) ''1_widget'' = 1
   \<and> (\<exists>s' new. code_exec_callback (stream_msg (Descriptors [frame1])) panel_column_open = Inr s'
         \<and> kernel_log s' = kernel_log panel_column_open @ new
         \<and> map drawn (rows s') = [described frame1] \<and> unloaded (rows s')
         \<and> (\<forall>r'\<in>set (rows s'). d_frame r' = ''1'' \<longrightarrow>
               ''hidden'' \<notin> set (d_pipe_class r') \<and> (\<exists>h. PipelineWidget ''1'' h \<in> set new)
               \<and> (\<forall>c'\<in>set (d_cols r'). c_id c' = ''2'' \<longrightarrow>
                     ''hidden'' \<notin> set (c_cell_class c') \<and> (\<exists>h. ColumnWidget ''1'' ''2'' h \<in> set new))))"
proof -
  let ?m = "stream_msg (Descriptors [frame1])"
  let ?s = panel_column_open
  have l: "find_output (rows ?s) ''1_widget'' = 1" by code_simp
  have u: "distinct (map fst (elements (rows ?s)))" by code_simp
  have m: "msg_type ?m = ''stream''" "content_text ?m = Descriptors [frame1]"
    by (simp_all add: stream_msg_def)
  have w: "wrapper ?s = Some True" by code_simp
  have r: "hd (rows ?s) \<in> set (rows ?s)" "d_pipe_id (hd (rows ?s)) = ''1_row''"
    "''hidden'' \<notin> set (d_pipe_class (hd (rows ?s)))"
    "hd (d_cols (hd (rows ?s))) \<in> set (d_cols (hd (rows ?s)))"
    "c_cell_id (hd (d_cols (hd (rows ?s)))) = ''2_row''"
    "''hidden'' \<notin> set (c_cell_class (hd (d_cols (hd (rows ?s)))))"
    by code_simp+
  from redraw_reloads_open_widgets [OF m w u] obtain s' new where
    c: "code_exec_callback ?m ?s = Inr s'" and k: "kernel_log s' = kernel_log ?s @ new"
    and g: "map drawn (rows s') = map described [frame1]" and un: "unloaded (rows s')"
    and a: "\<forall>r'\<in>set (rows s').
          d_pipe_id r' = d_frame r' @ ''_row'' \<and>
          (\<forall>c'\<in>set (d_cols r'). c_cell_id c' = c_id c' @ ''_row'' \<and> c_frame c' = d_frame r') \<and>
          (\<forall>r\<in>set (rows ?s). d_pipe_id r = d_pipe_id r' \<and> ''hidden'' \<notin> set (d_pipe_class r) \<longrightarrow>
              ''hidden'' \<notin> set (d_pipe_class r') \<and> (True \<longrightarrow> (\<exists>h. PipelineWidget (d_frame r') h \<in> set new))) \<and>
          (\<forall>c'\<in>set (d_cols r'). \<forall>r\<in>set (rows ?s). \<forall>c\<in>set (d_cols r).
              c_cell_id c = c_cell_id c' \<and> ''hidden'' \<notin> set (c_cell_class c) \<longrightarrow>
              ''hidden'' \<notin> set (c_cell_class c')
              \<and> (True \<longrightarrow> (\<exists>h. ColumnWidget (c_frame c') (c_id c') h \<in> set new)))"
    by blast
  have A: "\<forall>r'\<in>set (rows s'). d_frame r' = ''1'' \<longrightarrow>
               ''hidden'' \<notin> set (d_pipe_class r') \<and> (\<exists>h. PipelineWidget ''1'' h \<in> set new)
               \<and> (\<forall>c'\<in>set (d_cols r'). c_id c' = ''2'' \<longrightarrow>
                     ''hidden'' \<notin> set (c_cell_class c') \<and> (\<exists>h. ColumnWidget ''1'' ''2'' h \<in> set new))"
  proof (intro ballI impI)
    fix r' assume r': "r' \<in> set (rows s')" and f: "d_frame r' = ''1''"
    note a' = a [rule_format, OF r']
    from a' f have i: "d_pipe_id r' = ''1_row''" by simp
    from a' [THEN conjunct2, THEN conjunct2, THEN conjunct1, rule_format, OF r(1)] i r(2) r(3) f
    have 1: "''hidden'' \<notin> set (d_pipe_class r') \<and> (\<exists>h. PipelineWidget ''1'' h \<in> set new)"
      by simp
    have 2: "''hidden'' \<notin> set (c_cell_class c') \<and> (\<exists>h. ColumnWidget ''1'' ''2'' h \<in> set new)"
      if c': "c' \<in> set (d_cols r')" and ci: "c_id c' = ''2''" for c'
    proof -
      from a' [THEN conjunct2, THEN conjunct1, rule_format, OF c'] ci f
      have j: "c_cell_id c' = ''2_row''" "c_frame c' = ''1''" by simp_all
      from a' [THEN conjunct2, THEN conjunct2, THEN conjunct2, rule_format, OF c' r(1) r(4)]
        j r(5) r(6) ci
      show ?thesis by simp
    qed
    show "''hidden'' \<notin> set (d_pipe_class r') \<and> (\<exists>h. PipelineWidget ''1'' h \<in> set new)
               \<and> (\<forall>c'\<in>set (d_cols r'). c_id c' = ''2'' \<longrightarrow>
                     ''hidden'' \<notin> set (c_cell_class c') \<and> (\<exists>h. ColumnWidget ''1'' ''2'' h \<in> set new))"
      using 1 2 by (intro conjI ballI impI) simp_all
  qed
  from g have g': "map drawn (rows s') = [described frame1]" by simp
  have e: "\<exists>s' new. code_exec_callback ?m ?s = Inr s'
         \<and> kernel_log s' = kernel_log ?s @ new
         \<and> map drawn (rows s') = [described frame1] \<and> unloaded (rows s')
         \<and> (\<forall>r'\<in>set (rows s'). d_frame r' = ''1'' \<longrightarrow>
               ''hidden'' \<notin> set (d_pipe_class r') \<and> (\<exists>h. PipelineWidget ''1'' h \<in> set new)
               \<and> (\<forall>c'\<in>set (d_cols r'). c_id c' = ''2'' \<longrightarrow>
                     ''hidden'' \<notin> set (c_cell_class c') \<and> (\<exists>h. ColumnWidget ''1'' ''2'' h \<in> set new)))"
    by (rule exI [of _ s'], rule exI [of _ new]) (intro conjI c k g' un A)
  show ?thesis by (intro conjI l e)
qed

text \<open>
  C2, as the code has it. The loader does not look at the direction of a click but at
  the rendered output: with the panel displayed, a click on the anchor of a dataframe or
  of a column sends exactly one widget request when no rendered output is found under
  the widget holder of the row, and none when one is found; in that case the click
  leaves what is found there as it is. So, in a document whose ids are unique, once the
  \<open>display_data\<close> reply to the request of the first click has been rendered, the click
  that collapses the row and the click that expands it again send nothing.
\<close>

theorem click_requests_by_loaded_state:
  assumes "inspector s = Some t" and "wrapper s = Some True" and "i < length t"
  shows "(find_output t (d_frame (t ! i) @ ''_widget'') = 0 \<longrightarrow>
            kernel_log (click_toggleDataframe i s)
              = kernel_log s @ [PipelineWidget (d_frame (t ! i)) (next_holder s)])
       \<and> (find_output t (d_frame (t ! i) @ ''_widget'') \<noteq> 0 \<longrightarrow>
            kernel_log (click_toggleDataframe i s) = kernel_log s
            \<and> find_output (rows (click_toggleDataframe i s)) (d_frame (t ! i) @ ''_widget'')
                = find_output t (d_frame (t ! i) @ ''_widget''))
       \<and> (\<forall>m. msg_type m = ''display_data'' \<and> distinct (map fst (elements t))
              \<and> d_pipe_id (t ! i) = d_frame (t ! i) @ ''_row''
              \<and> find_output t (d_frame (t ! i) @ ''_widget'') = 0
              \<and> distinct (map fst (elements (rows (click_toggleDataframe i s)))) \<longrightarrow>
            kernel_log (click_toggleDataframe i (click_toggleDataframe i
                 (display_widgets m (next_holder s) (click_toggleDataframe i s))))
              = kernel_log s @ [PipelineWidget (d_frame (t ! i)) (next_holder s)])
       \<and> (\<forall>j<length (d_cols (t ! i)).
            (find_output t (c_id (d_cols (t ! i) ! j) @ ''_widget'') = 0 \<longrightarrow>
               kernel_log (click_toggleColumn i j s)
                 = kernel_log s @ [ColumnWidget (c_frame (d_cols (t ! i) ! j))
                                      (c_id (d_cols (t ! i) ! j)) (next_holder s)])
          \<and> (find_output t (c_id (d_cols (t ! i) ! j) @ ''_widget'') \<noteq> 0 \<longrightarrow>
               kernel_log (click_toggleColumn i j s) = kernel_log s
               \<and> find_output (rows (click_toggleColumn i j s)) (c_id (d_cols (t ! i) ! j) @ ''_widget'')
                   = find_output t (c_id (d_cols (t ! i) ! j) @ ''_widget''))
          \<and> (\<forall>m. msg_type m = ''display_data'' \<and> distinct (map fst (elements t))
                 \<and> c_cell_id (d_cols (t ! i) ! j) = c_id (d_cols (t ! i) ! j) @ ''_row''
                 \<and> find_output t (c_id (d_cols (t ! i) ! j) @ ''_widget'') = 0
                 \<and> distinct (map fst (elements (rows (click_toggleColumn i j s)))) \<longrightarrow>
               kernel_log (click_toggleColumn i j (click_toggleColumn i j
                    (display_widgets m (next_holder s) (click_toggleColumn i j s))))
                 = kernel_log s @ [ColumnWidget (c_frame (d_cols (t ! i) ! j))
                                      (c_id (d_cols (t ! i) ! j)) (next_holder s)]))"
  using click_toggleDataframe_requests [OF assms] click_toggleColumn_requests [OF assms]
    rendered_reply_stops_requests_df [OF assms] rendered_reply_stops_requests_col [OF assms]
  by blast

theorem click_requests_by_loaded_state_witness:
  "kernel_log (click_toggleDataframe 0 panel_visible) = [PipelineWidget ''1'' 0]
   \<and> kernel_log (click_toggleColumn 0 0 panel_visible) = [ColumnWidget ''1'' ''2'' 0]
   \<and> kernel_log (click_toggleDataframe 0 (click_toggleDataframe 0
         (display_widgets (widget_msg ''display_data'') 0 (click_toggleDataframe 0 panel_visible))))
       = [PipelineWidget ''1'' 0]
   \<and> kernel_log (click_toggleColumn 0 0 (click_toggleColumn 0 0
         (display_widgets (widget_msg ''display_data'') 0 (click_toggleColumn 0 0 panel_visible))))
       = [ColumnWidget ''1'' ''2'' 0]
   \<and> find_output (rows panel_loaded) ''1_widget'' = 1
   \<and> kernel_log (click_toggleDataframe 0 panel_loaded) = kernel_log panel_loaded
   \<and> find_output (rows (click_toggleDataframe 0 panel_loaded)) ''1_widget'' = 1"
proof -
  have v: "inspector panel_visible = Some (rows panel_visible)" "wrapper panel_visible = Some True"
    "0 < length (rows panel_visible)" "0 < length (d_cols (rows panel_visible ! 0))"
    "find_output (rows panel_visible) (d_frame (rows panel_visible ! 0) @ ''_widget'') = 0"
    "find_output (rows panel_visible) (c_id (d_cols (rows panel_visible ! 0) ! 0) @ ''_widget'') = 0"
    "d_frame (rows panel_visible ! 0) = ''1''" "c_frame (d_cols (rows panel_visible ! 0) ! 0) = ''1''"
    "c_id (d_cols (rows panel_visible ! 0) ! 0) = ''2''"
    "kernel_log panel_visible = []" "next_holder panel_visible = 0"
    "msg_type (widget_msg ''display_data'') = ''display_data''"
    "distinct (map fst (elements (rows panel_visible)))"
    "d_pipe_id (rows panel_visible ! 0) = ''1_row''"
    "c_cell_id (d_cols (rows panel_visible ! 0) ! 0) = ''2_row''"
    "distinct (map fst (elements (rows (click_toggleDataframe 0 panel_visible))))"
    "distinct (map fst (elements (rows (click_toggleColumn 0 0 panel_visible))))"
    by code_simp+
  have l: "inspector panel_loaded = Some (rows panel_loaded)" "wrapper panel_loaded = Some True"
    "0 < length (rows panel_loaded)" "d_frame (rows panel_loaded ! 0) = ''1''"
    "find_output (rows panel_loaded) ''1_widget'' = 1"
    by code_simp+
  from click_requests_by_loaded_state [OF v(1) v(2) v(3)] v(4-)
  have 1: "kernel_log (click_toggleDataframe 0 panel_visible) = [PipelineWidget ''1'' 0]"
    and 2: "kernel_log (click_toggleColumn 0 0 panel_visible) = [ColumnWidget ''1'' ''2'' 0]"
    and 3: "kernel_log (click_toggleDataframe 0 (click_toggleDataframe 0
         (display_widgets (widget_msg ''display_data'') 0 (click_toggleDataframe 0 panel_visible))))
       = [PipelineWidget ''1'' 0]"
    and 4: "kernel_log (click_toggleColumn 0 0 (click_toggleColumn 0 0
         (display_widgets (widget_msg ''display_data'') 0 (click_toggleColumn 0 0 panel_visible))))
       = [ColumnWidget ''1'' ''2'' 0]"
    by simp_all
  from click_requests_by_loaded_state [OF l(1) l(2) l(3)] l(4-)
  have 5: "kernel_log (click_toggleDataframe 0 panel_loaded) = kernel_log panel_loaded
           \<and> find_output (rows (click_toggleDataframe 0 panel_loaded)) ''1_widget'' = 1"
    by simp
  from 1 2 3 4 5 l(5) show ?thesis by simp
qed

text \<open>
  The claim C2 as stated fails while no reply has been rendered: the first click opens the
  row and sends a request, the second click closes it and sends another, the third opens
  it again and sends a third.
\<close>

theorem reexpand_requests_counterexample:
  "map d_pipe_class (rows panel_visible) = [[''pipeline_widget'', ''hidden'']]
   \<and> map d_pipe_class (rows (click_toggleDataframe 0 panel_visible)) = [[''pipeline_widget'']]
   \<and> kernel_log (click_toggleDataframe 0 panel_visible) = [PipelineWidget ''1'' 0]
   \<and> map d_pipe_class (rows (click_toggleDataframe 0 (click_toggleDataframe 0 panel_visible)))
       = [[''pipeline_widget'', ''hidden'']]
   \<and> map d_pipe_class
        (rows (click_toggleDataframe 0 (click_toggleDataframe 0 (click_toggleDataframe 0 panel_visible))))
       = [[''pipeline_widget'']]
   \<and> kernel_log (click_toggleDataframe 0 (click_toggleDataframe 0 (click_toggleDataframe 0 panel_visible)))
       = [PipelineWidget ''1'' 0, PipelineWidget ''1'' 1, PipelineWidget ''1'' 2]"
  by code_simp

end
